theory Spec2Isabelle
  imports Complex_Main "HOL-Library.Multiset"
begin

section \<open>Data model (types/index.ts)\<close>

text \<open>
  JavaScript numbers that hold plan coordinates are modelled as \<open>real\<close>; numbers that
  hold floor indices and sequence orders are modelled as \<open>int\<close>. An optional property
  (\<open>z?: number\<close>) is an \<open>option\<close>, \<open>None\<close> standing for \<open>undefined\<close>.
\<close>

record Position =
  pos_x :: real
  pos_y :: real
  pos_z :: "int option"

datatype Importance = ImpNo | ImpNeutral | ImpYes

datatype NodeShape = Circle | Star | Square | Polygon | Diamond

datatype NodeType =
    EntranceExit
  | DecisionPoint
  | DecisionZone
  | VerticalConnection
  | ActivityDestination
  | ConnectingSegment

record CorridorSegment =
  seg_start :: Position
  seg_end :: Position
  startFloor :: int
  endFloor :: int
  seg_isCrossFloor :: bool

text \<open>
  The nested annotation payloads of a node (\<open>space_annotation\<close>, \<open>behavior_expectation\<close>,
  \<open>dp_annotation\<close>) and of a corridor (\<open>space_annotation\<close>, \<open>behavior_expectation\<close>)
  are never inspected by the store operations modelled here; they are carried as one
  opaque field of an arbitrary type.
\<close>

record 'np Node =
  node_id :: string
  node_type :: NodeType
  node_shape :: NodeShape
  node_position :: Position
  node_floorIndex :: int
  node_polygon :: "Position list option"
  node_design_importance :: Importance
  node_payload :: 'np

record 'cp Corridor =
  cor_id :: string
  cor_path :: "Position list"
  cor_segments :: "CorridorSegment list"
  cor_floorIndex :: int
  cor_fromFloor :: "int option"
  cor_toFloor :: "int option"
  cor_isCrossFloor :: bool
  cor_width :: "real option"
  cor_height :: "real option"
  cor_from :: "string option"
  cor_to :: "string option"
  cor_design_importance :: Importance
  cor_payload :: 'cp
  cor_notes :: "string option"

record Floor =
  floor_id :: string
  floor_name :: string
  floor_index :: int
  floor_backgroundImage :: string
  floor_scale :: real
  floor_pan :: Position

record DecisionProperties =
  dp_importance :: Importance
  dp_rationale :: "string list"
  dp_rationale_other :: "string option"

record DesignCues =
  cue_medium_how :: "string list"
  cue_verticality :: "bool option"
  cue_importance :: "real option"
  cue_explanation :: "string option"
  cue_confidence :: "real option"
  cue_target_where :: "string option"

record DesignIntent =
  di_where :: string
  di_how :: "string list"
  di_description :: "string option"
  di_design_cues :: "DesignCues option"

record Edge =
  edge_id :: string
  edge_from :: string
  edge_to :: string
  edge_design_importance :: Importance
  edge_decision_properties :: DecisionProperties
  edge_design_intent :: DesignIntent

datatype ItemType = NodeItem | CorridorItem

record PathSequenceItem =
  item_id :: string
  item_type :: ItemType
  item_order :: int

record ProjectIdentification =
  buildingId :: string
  architectId :: string
  routeId :: string

record JourneyReflection =
  jr_confidence :: real
  jr_adherence_expectation :: real
  jr_team_alignment :: real
  jr_notes :: "string option"

record CanvasState =
  cs_scale :: real
  cs_pan :: Position
  cs_backgroundImage :: "string option"
  currentFloorIndex :: int

section \<open>Corridor segmentation (utils/corridorUtils.ts)\<close>

text \<open>\<open>start.z ?? 0\<close>: the floor of a vertex, 0 when the vertex carries none.\<close>

definition floorOf :: "Position \<Rightarrow> int" where
  "floorOf p = (case pos_z p of None \<Rightarrow> 0 | Some f \<Rightarrow> f)"

definition mkSegment :: "Position \<Rightarrow> Position \<Rightarrow> CorridorSegment" where
  "mkSegment a b =
     \<lparr> seg_start = a, seg_end = b, startFloor = floorOf a, endFloor = floorOf b,
       seg_isCrossFloor = (floorOf a \<noteq> floorOf b) \<rparr>"

text \<open>
  The loop \<open>for (i = 0; i < path.length - 1; i++)\<close> pushes one segment per consecutive
  pair; a path of fewer than two vertices gives no segment.
\<close>

fun generateCorridorSegments :: "Position list \<Rightarrow> CorridorSegment list" where
  "generateCorridorSegments (a # b # rest) = mkSegment a b # generateCorridorSegments (b # rest)"
| "generateCorridorSegments _ = []"

definition getSegmentsForFloor :: "CorridorSegment list \<Rightarrow> int \<Rightarrow> CorridorSegment list" where
  "getSegmentsForFloor segs floorIndex =
     filter (\<lambda>s. startFloor s = floorIndex \<or> endFloor s = floorIndex) segs"

text \<open>
  \<open>Math.min(...floors)\<close> and \<open>Math.max(...floors)\<close>. On an empty argument list
  JavaScript returns \<open>Infinity\<close> and \<open>-Infinity\<close>; that case is \<open>None\<close> here.
\<close>

fun mathMin :: "int list \<Rightarrow> int option" where
  "mathMin [] = None"
| "mathMin (f # fs) = (case mathMin fs of None \<Rightarrow> Some f | Some m \<Rightarrow> Some (min f m))"

fun mathMax :: "int list \<Rightarrow> int option" where
  "mathMax [] = None"
| "mathMax (f # fs) = (case mathMax fs of None \<Rightarrow> Some f | Some m \<Rightarrow> Some (max f m))"

definition getCorridorFloorRange :: "Position list \<Rightarrow> int option \<times> int option" where
  "getCorridorFloorRange path = (mathMin (map floorOf path), mathMax (map floorOf path))"

text \<open>
  \<open>floorRange.max - floorRange.min > 5\<close>. For the empty path the difference is
  \<open>-Infinity - Infinity = -Infinity\<close>, which is not greater than 5.
\<close>

definition spanExceeds :: "int option \<times> int option \<Rightarrow> bool" where
  "spanExceeds r =
     (case r of (Some mn, Some mx) \<Rightarrow> mx - mn > 5 | _ \<Rightarrow> False)"

definition validateCorridorPath :: "Position list \<Rightarrow> bool \<times> string list" where
  "validateCorridorPath path =
     (let errors1 = (if length path < 2 then [''Corridor must have at least 2 vertices''] else []);
          missingZ = list_ex (\<lambda>p. pos_z p = None) path;
          errors2 = (if missingZ
                     then errors1 @ [''All vertices must have floor information (Z coordinate)'']
                     else errors1);
          floorRange = getCorridorFloorRange path;
          errors3 = (if spanExceeds floorRange
                     then errors2 @ [''Corridor spans too many floors (max 5 floors)'']
                     else errors2)
      in (errors3 = [], errors3))"

section \<open>The annotation store (store/annotationStore.ts)\<close>

text \<open>
  The store record holds the collections and the part of the UI state that the modelled
  operations read or write (\<open>canvasState\<close>, \<open>currentNode\<close>, \<open>currentCorridor\<close>).
\<close>

record ('np, 'cp) store =
  nodes :: "'np Node list"
  corridors :: "'cp Corridor list"
  edges :: "Edge list"
  pathSequence :: "PathSequenceItem list"
  floors :: "Floor list"
  projectId :: ProjectIdentification
  journeyReflection :: "JourneyReflection option"
  canvasState :: CanvasState
  currentNode :: "'np Node option"
  currentCorridor :: "'cp Corridor option"

text \<open>
  An operation either returns, or throws after having left some store behind: a
  \<open>TypeError\<close> raised inside a \<open>set\<close> updater leaves the store as it was, a
  \<open>RangeError\<close> (call stack exhausted by \<open>processPath\<close>) raised after a \<open>set\<close> leaves
  the store as that \<open>set\<close> wrote it.
\<close>

datatype error = TypeError | RangeError

datatype 'a outcome = Returned 'a | Threw error 'a

fun storeAfter :: "'a outcome \<Rightarrow> 'a" where
  "storeAfter (Returned s) = s"
| "storeAfter (Threw e s) = s"

fun hasReturned :: "'a outcome \<Rightarrow> bool" where
  "hasReturned (Returned s) = True"
| "hasReturned (Threw e s) = False"

subsection \<open>regenerateEdges\<close>

definition defaultDecisionProperties :: DecisionProperties where
  "defaultDecisionProperties =
     \<lparr> dp_importance = ImpNeutral, dp_rationale = [], dp_rationale_other = Some [] \<rparr>"

definition defaultDesignIntent :: "PathSequenceItem \<Rightarrow> DesignIntent" where
  "defaultDesignIntent current =
     \<lparr> di_where = (if item_type current = NodeItem then item_id current else []),
       di_how = [],
       di_description = None,
       di_design_cues = Some \<lparr> cue_medium_how = [], cue_verticality = None,
         cue_importance = None, cue_explanation = None, cue_confidence = None,
         cue_target_where = None \<rparr> \<rparr>"

definition edgeIdOf :: "PathSequenceItem \<Rightarrow> PathSequenceItem \<Rightarrow> string" where
  "edgeIdOf current next = item_id current @ ''-'' @ item_id next"

text \<open>
  The body of the loop of \<open>regenerateEdges\<close>. \<open>existingEdge?.f || d\<close> takes the field
  of the first previous edge with the same id; the fields are objects or non-empty
  strings, so the default \<open>d\<close> is taken exactly when there is no such edge.
\<close>

definition newEdge :: "Edge list \<Rightarrow> PathSequenceItem \<Rightarrow> PathSequenceItem \<Rightarrow> Edge" where
  "newEdge old current next =
     (let edgeId = edgeIdOf current next;
          existingEdge = find (\<lambda>e. edge_id e = edgeId) old
      in \<lparr> edge_id = edgeId,
           edge_from = item_id current,
           edge_to = item_id next,
           edge_design_importance =
             (case existingEdge of None \<Rightarrow> ImpNeutral | Some e \<Rightarrow> edge_design_importance e),
           edge_decision_properties =
             (case existingEdge of None \<Rightarrow> defaultDecisionProperties
              | Some e \<Rightarrow> edge_decision_properties e),
           edge_design_intent =
             (case existingEdge of None \<Rightarrow> defaultDesignIntent current
              | Some e \<Rightarrow> edge_design_intent e) \<rparr>)"

fun edgesBetween :: "Edge list \<Rightarrow> PathSequenceItem list \<Rightarrow> Edge list" where
  "edgesBetween old (current # next # rest) =
     newEdge old current next # edgesBetween old (next # rest)"
| "edgesBetween old _ = []"

text \<open>
  \<open>[...state.pathSequence].sort((a, b) => a.order - b.order)\<close> is a stable sort on
  the order; \<open>sort_key\<close> is the stable insertion sort.
\<close>

definition regenerateEdges :: "('np, 'cp) store \<Rightarrow> ('np, 'cp) store" where
  "regenerateEdges st =
     st\<lparr> edges := edgesBetween (edges st) (sort_key item_order (pathSequence st)) \<rparr>"

definition deleteEdge :: "('np, 'cp) store \<Rightarrow> string \<Rightarrow> ('np, 'cp) store" where
  "deleteEdge st ident = st\<lparr> edges := filter (\<lambda>edge. edge_id edge \<noteq> ident) (edges st) \<rparr>"

subsection \<open>reorderPathSequence\<close>

text \<open>
  The closure state of the sequencer: the set \<open>processedItems\<close> and the array
  \<open>reorderedSequence\<close>; the running order is passed and returned as in the source.
  The maps \<open>nodeConnections\<close> and \<open>corridorConnections\<close> are built but never read and
  are left out.
\<close>

record walk =
  processedItems :: "string set"
  reorderedSequence :: "PathSequenceItem list"

definition addItemToSequence ::
  "PathSequenceItem list \<Rightarrow> string \<Rightarrow> int \<Rightarrow> walk \<Rightarrow> int \<times> walk" where
  "addItemToSequence ps itemId ord w =
     (if itemId \<in> processedItems w then (ord, w)
      else case find (\<lambda>p. item_id p = itemId) ps of
             None \<Rightarrow> (ord, w)
           | Some item \<Rightarrow>
               (ord + 1,
                w\<lparr> processedItems := insert itemId (processedItems w),
                   reorderedSequence := reorderedSequence w @ [item\<lparr> item_order := ord \<rparr>] \<rparr>))"

text \<open>
  \<open>processPath\<close> calls itself through the loop over the outgoing corridors. The first
  argument bounds the depth of nested calls, as the call stack does: \<open>None\<close> is the
  \<open>RangeError\<close> of an exhausted stack. \<open>corridor.to && ...\<close> is false for an absent and
  for an empty \<open>to\<close>.
\<close>

fun processPath ::
    "nat \<Rightarrow> PathSequenceItem list \<Rightarrow> 'cp Corridor list \<Rightarrow> string \<Rightarrow> int \<Rightarrow> walk
      \<Rightarrow> (int \<times> walk) option"
  and processOutgoing ::
    "nat \<Rightarrow> PathSequenceItem list \<Rightarrow> 'cp Corridor list \<Rightarrow> 'cp Corridor list \<Rightarrow> int \<Rightarrow> walk
      \<Rightarrow> (int \<times> walk) option"
where
  "processPath 0 ps cs nodeId ord w = None"
| "processPath (Suc d) ps cs nodeId ord w =
     (case addItemToSequence ps nodeId ord w of
        (ord1, w1) \<Rightarrow>
          processOutgoing d ps cs (filter (\<lambda>c. cor_from c = Some nodeId) cs) ord1 w1)"
| "processOutgoing d ps cs [] ord w = Some (ord, w)"
| "processOutgoing d ps cs (corridor # rest) ord w =
     (case addItemToSequence ps (cor_id corridor) ord w of
        (ord1, w1) \<Rightarrow>
          (case cor_to corridor of
             None \<Rightarrow> processOutgoing d ps cs rest ord1 w1
           | Some t \<Rightarrow>
               if t \<noteq> [] \<and> t \<notin> processedItems w1
               then (case processPath d ps cs t ord1 w1 of
                       None \<Rightarrow> None
                     | Some (ord2, w2) \<Rightarrow> processOutgoing d ps cs rest ord2 w2)
               else processOutgoing d ps cs rest ord1 w1))"

text \<open>The loop over the start nodes.\<close>

fun processStartNodes ::
  "nat \<Rightarrow> PathSequenceItem list \<Rightarrow> 'cp Corridor list \<Rightarrow> 'np Node list \<Rightarrow> int \<Rightarrow> walk
    \<Rightarrow> (int \<times> walk) option" where
  "processStartNodes d ps cs [] ord w = Some (ord, w)"
| "processStartNodes d ps cs (startNode # rest) ord w =
     (if node_id startNode \<notin> processedItems w
      then (case processPath d ps cs (node_id startNode) ord w of
              None \<Rightarrow> None
            | Some (ord1, w1) \<Rightarrow> processStartNodes d ps cs rest ord1 w1)
      else processStartNodes d ps cs rest ord w)"

text \<open>The final loop: the items of the old sequence that were never processed.\<close>

fun addRemaining ::
  "string set \<Rightarrow> PathSequenceItem list \<Rightarrow> int \<Rightarrow> PathSequenceItem list
    \<Rightarrow> PathSequenceItem list" where
  "addRemaining processed [] ord acc = acc"
| "addRemaining processed (item # rest) ord acc =
     (if item_id item \<notin> processed
      then addRemaining processed rest (ord + 1) (acc @ [item\<lparr> item_order := ord \<rparr>])
      else addRemaining processed rest ord acc)"

text \<open>\<open>node.type.includes('Entrance')\<close> holds for the type \<open>Entrance/Exit (E)\<close> only.\<close>

definition typeIncludesEntrance :: "NodeType \<Rightarrow> bool" where
  "typeIncludesEntrance t = (t = EntranceExit)"

definition startNodes :: "('np, 'cp) store \<Rightarrow> 'np Node list" where
  "startNodes st =
     filter (\<lambda>node.
        let isEntrance = typeIncludesEntrance (node_type node);
            hasIncoming = list_ex (\<lambda>corridor. cor_to corridor = Some (node_id node)) (corridors st)
        in isEntrance \<or> \<not> hasIncoming) (nodes st)"

definition emptyWalk :: walk where
  "emptyWalk = \<lparr> processedItems = {}, reorderedSequence = [] \<rparr>"

definition reorderPathSequence :: "nat \<Rightarrow> ('np, 'cp) store \<Rightarrow> ('np, 'cp) store outcome" where
  "reorderPathSequence depth st =
     (case processStartNodes depth (pathSequence st) (corridors st) (startNodes st) 0 emptyWalk of
        None \<Rightarrow> Threw RangeError st
      | Some (currentOrder, w) \<Rightarrow>
          Returned (regenerateEdges
            (st\<lparr> pathSequence :=
                  addRemaining (processedItems w) (pathSequence st) currentOrder
                    (reorderedSequence w) \<rparr>)))"

subsection \<open>Node operations\<close>

text \<open>
  Every mutating operation is a \<open>set\<close> updater followed by \<open>reorderPathSequence\<close>;
  the updater is the function with the suffix \<open>_set\<close>. The first argument of an
  operation is the call depth available to the sequencer. A design importance is one of
  three non-empty strings, so \<open>design_importance || 'neutral'\<close> keeps it.
\<close>

definition addNode_set :: "('np, 'cp) store \<Rightarrow> 'np Node \<Rightarrow> ('np, 'cp) store" where
  "addNode_set st node =
     (let cf = currentFloorIndex (canvasState st);
          nodeWithFloor = node\<lparr> node_floorIndex := cf,
                                node_position := (node_position node)\<lparr> pos_z := Some cf \<rparr> \<rparr>;
          newPathItem = \<lparr> item_id = node_id node, item_type = NodeItem,
                          item_order = int (length (pathSequence st)) \<rparr>
      in st\<lparr> nodes := nodes st @ [nodeWithFloor],
             pathSequence := pathSequence st @ [newPathItem] \<rparr>)"

definition addNode :: "nat \<Rightarrow> ('np, 'cp) store \<Rightarrow> 'np Node \<Rightarrow> ('np, 'cp) store outcome" where
  "addNode depth st node = reorderPathSequence depth (addNode_set st node)"

text \<open>\<open>Partial<Node>\<close>: every field may be absent from the update.\<close>

record 'np NodeUpdates =
  upd_node_id :: "string option"
  upd_node_type :: "NodeType option"
  upd_node_shape :: "NodeShape option"
  upd_node_position :: "Position option"
  upd_node_floorIndex :: "int option"
  upd_node_polygon :: "Position list option"
  upd_node_design_importance :: "Importance option"
  upd_node_payload :: "'np option"

definition orElse :: "'a option \<Rightarrow> 'a \<Rightarrow> 'a" where
  "orElse u old = (case u of None \<Rightarrow> old | Some v \<Rightarrow> v)"

text \<open>The spread \<open>{ ...node, ...updates }\<close>.\<close>

definition mergeNode :: "'np Node \<Rightarrow> 'np NodeUpdates \<Rightarrow> 'np Node" where
  "mergeNode node u =
     \<lparr> node_id = orElse (upd_node_id u) (node_id node),
       node_type = orElse (upd_node_type u) (node_type node),
       node_shape = orElse (upd_node_shape u) (node_shape node),
       node_position = orElse (upd_node_position u) (node_position node),
       node_floorIndex = orElse (upd_node_floorIndex u) (node_floorIndex node),
       node_polygon = (case upd_node_polygon u of None \<Rightarrow> node_polygon node | Some g \<Rightarrow> Some g),
       node_design_importance =
         orElse (upd_node_design_importance u) (node_design_importance node),
       node_payload = orElse (upd_node_payload u) (node_payload node) \<rparr>"

definition updatedNodeOf :: "'np Node \<Rightarrow> 'np NodeUpdates \<Rightarrow> 'np Node" where
  "updatedNodeOf node u =
     (let updatedNode = mergeNode node u
      in if upd_node_position u \<noteq> None
         then updatedNode\<lparr> node_position :=
                (node_position updatedNode)\<lparr> pos_z := Some (node_floorIndex updatedNode) \<rparr> \<rparr>
         else updatedNode)"

definition updateNode_set ::
  "('np, 'cp) store \<Rightarrow> string \<Rightarrow> 'np NodeUpdates \<Rightarrow> ('np, 'cp) store" where
  "updateNode_set st ident u =
     st\<lparr> nodes := map (\<lambda>node. if node_id node = ident then updatedNodeOf node u else node)
                     (nodes st),
         currentNode :=
           (case currentNode st of
              None \<Rightarrow> None
            | Some cn \<Rightarrow> if node_id cn = ident then Some (mergeNode cn u) else Some cn) \<rparr>"

definition updateNode ::
  "nat \<Rightarrow> ('np, 'cp) store \<Rightarrow> string \<Rightarrow> 'np NodeUpdates \<Rightarrow> ('np, 'cp) store outcome" where
  "updateNode depth st ident u = reorderPathSequence depth (updateNode_set st ident u)"

text \<open>\<open>.map((item, index) => ({ ...item, order: index }))\<close>.\<close>

definition renumber :: "PathSequenceItem list \<Rightarrow> PathSequenceItem list" where
  "renumber items =
     map (\<lambda>(item, index). item\<lparr> item_order := int index \<rparr>) (zip items [0 ..< length items])"

definition deleteNode_set :: "('np, 'cp) store \<Rightarrow> string \<Rightarrow> ('np, 'cp) store" where
  "deleteNode_set st ident =
     st\<lparr> nodes := filter (\<lambda>node. node_id node \<noteq> ident) (nodes st),
         corridors := filter (\<lambda>corridor. cor_from corridor \<noteq> Some ident
                                \<and> cor_to corridor \<noteq> Some ident) (corridors st),
         pathSequence := renumber (filter (\<lambda>item. item_id item \<noteq> ident) (pathSequence st)) \<rparr>"

definition deleteNode :: "nat \<Rightarrow> ('np, 'cp) store \<Rightarrow> string \<Rightarrow> ('np, 'cp) store outcome" where
  "deleteNode depth st ident = reorderPathSequence depth (deleteNode_set st ident)"

text \<open>\<open>moveNode\<close> does not run the sequencer.\<close>

definition moveNode :: "('np, 'cp) store \<Rightarrow> string \<Rightarrow> Position \<Rightarrow> ('np, 'cp) store" where
  "moveNode st ident position =
     (let positionWithZ = position\<lparr> pos_z := Some (currentFloorIndex (canvasState st)) \<rparr>
      in st\<lparr> nodes := map (\<lambda>node. if node_id node = ident
                                   then node\<lparr> node_position := positionWithZ \<rparr> else node)
                         (nodes st) \<rparr>)"

subsection \<open>Corridor operations\<close>

text \<open>
  The derived fields of a corridor, from its segments and the floors of its path, as
  \<open>addCorridor\<close> and \<open>updateCorridor\<close> compute them. \<open>Math.min\<close> and \<open>Math.max\<close> are
  only reached with a floor transition, hence on a path of two vertices or more.
\<close>

definition hasFloorTransition :: "CorridorSegment list \<Rightarrow> bool" where
  "hasFloorTransition segs = list_ex seg_isCrossFloor segs"

text \<open>\<open>corridor.path.map(p => ({ ...p, z: p.z ?? currentFloorIndex }))\<close>.\<close>

definition stampedPath :: "int \<Rightarrow> Position list \<Rightarrow> Position list" where
  "stampedPath cf path = map (\<lambda>p. p\<lparr> pos_z := Some (orElse (pos_z p) cf) \<rparr>) path"

definition addCorridor_set :: "('np, 'cp) store \<Rightarrow> 'cp Corridor \<Rightarrow> ('np, 'cp) store" where
  "addCorridor_set st corridor =
     (let cf = currentFloorIndex (canvasState st);
          path = stampedPath cf (cor_path corridor);
          segs = generateCorridorSegments path;
          corridorWithFloor = corridor\<lparr> cor_floorIndex := cf, cor_isCrossFloor := False,
                                        cor_path := path, cor_segments := segs \<rparr>;
          stored = (if hasFloorTransition segs
                    then corridorWithFloor\<lparr> cor_isCrossFloor := True,
                           cor_fromFloor := mathMin (map floorOf path),
                           cor_toFloor := mathMax (map floorOf path) \<rparr>
                    else corridorWithFloor);
          newPathItem = \<lparr> item_id = cor_id corridor, item_type = CorridorItem,
                          item_order = int (length (pathSequence st)) \<rparr>
      in st\<lparr> corridors := corridors st @ [stored],
             pathSequence := pathSequence st @ [newPathItem] \<rparr>)"

definition addCorridor ::
  "nat \<Rightarrow> ('np, 'cp) store \<Rightarrow> 'cp Corridor \<Rightarrow> ('np, 'cp) store outcome" where
  "addCorridor depth st corridor = reorderPathSequence depth (addCorridor_set st corridor)"

text \<open>\<open>Partial<Corridor>\<close>.\<close>

record 'cp CorridorUpdates =
  upd_cor_id :: "string option"
  upd_cor_path :: "Position list option"
  upd_cor_segments :: "CorridorSegment list option"
  upd_cor_floorIndex :: "int option"
  upd_cor_fromFloor :: "int option"
  upd_cor_toFloor :: "int option"
  upd_cor_isCrossFloor :: "bool option"
  upd_cor_width :: "real option"
  upd_cor_height :: "real option"
  upd_cor_from :: "string option"
  upd_cor_to :: "string option"
  upd_cor_design_importance :: "Importance option"
  upd_cor_payload :: "'cp option"
  upd_cor_notes :: "string option"

definition orSome :: "'a option \<Rightarrow> 'a option \<Rightarrow> 'a option" where
  "orSome u old = (case u of None \<Rightarrow> old | Some v \<Rightarrow> Some v)"

definition mergeCorridor :: "'cp Corridor \<Rightarrow> 'cp CorridorUpdates \<Rightarrow> 'cp Corridor" where
  "mergeCorridor c u =
     \<lparr> cor_id = orElse (upd_cor_id u) (cor_id c),
       cor_path = orElse (upd_cor_path u) (cor_path c),
       cor_segments = orElse (upd_cor_segments u) (cor_segments c),
       cor_floorIndex = orElse (upd_cor_floorIndex u) (cor_floorIndex c),
       cor_fromFloor = orSome (upd_cor_fromFloor u) (cor_fromFloor c),
       cor_toFloor = orSome (upd_cor_toFloor u) (cor_toFloor c),
       cor_isCrossFloor = orElse (upd_cor_isCrossFloor u) (cor_isCrossFloor c),
       cor_width = orSome (upd_cor_width u) (cor_width c),
       cor_height = orSome (upd_cor_height u) (cor_height c),
       cor_from = orSome (upd_cor_from u) (cor_from c),
       cor_to = orSome (upd_cor_to u) (cor_to c),
       cor_design_importance = orElse (upd_cor_design_importance u) (cor_design_importance c),
       cor_payload = orElse (upd_cor_payload u) (cor_payload c),
       cor_notes = orSome (upd_cor_notes u) (cor_notes c) \<rparr>"

definition updatedCorridorOf :: "'cp Corridor \<Rightarrow> 'cp CorridorUpdates \<Rightarrow> 'cp Corridor" where
  "updatedCorridorOf c u =
     (let updatedCorridor = mergeCorridor c u
      in case upd_cor_path u of
           None \<Rightarrow> updatedCorridor
         | Some path \<Rightarrow>
             (let segs = generateCorridorSegments path
              in if hasFloorTransition segs
                 then updatedCorridor\<lparr> cor_segments := segs, cor_isCrossFloor := True,
                        cor_fromFloor := mathMin (map floorOf path),
                        cor_toFloor := mathMax (map floorOf path) \<rparr>
                 else updatedCorridor\<lparr> cor_segments := segs, cor_isCrossFloor := False,
                        cor_fromFloor := None, cor_toFloor := None \<rparr>))"

definition updateCorridor_set ::
  "('np, 'cp) store \<Rightarrow> string \<Rightarrow> 'cp CorridorUpdates \<Rightarrow> ('np, 'cp) store" where
  "updateCorridor_set st ident u =
     st\<lparr> corridors := map (\<lambda>corridor. if cor_id corridor = ident
                                       then updatedCorridorOf corridor u else corridor)
                         (corridors st),
         currentCorridor :=
           (case currentCorridor st of
              None \<Rightarrow> None
            | Some cc \<Rightarrow> if cor_id cc = ident then Some (mergeCorridor cc u) else Some cc) \<rparr>"

definition updateCorridor ::
  "nat \<Rightarrow> ('np, 'cp) store \<Rightarrow> string \<Rightarrow> 'cp CorridorUpdates \<Rightarrow> ('np, 'cp) store outcome" where
  "updateCorridor depth st ident u = reorderPathSequence depth (updateCorridor_set st ident u)"

definition pathUpdate :: "Position list \<Rightarrow> 'cp CorridorUpdates" where
  "pathUpdate path =
     \<lparr> upd_cor_id = None, upd_cor_path = Some path, upd_cor_segments = None,
       upd_cor_floorIndex = None, upd_cor_fromFloor = None, upd_cor_toFloor = None,
       upd_cor_isCrossFloor = None, upd_cor_width = None, upd_cor_height = None,
       upd_cor_from = None, upd_cor_to = None, upd_cor_design_importance = None,
       upd_cor_payload = None, upd_cor_notes = None \<rparr>"

text \<open>
  The assignment \<open>updatedPath[vertexIndex] = v\<close> on the copy of the path, as JavaScript
  performs it. An integer is an array index from 0 up to \<open>2^32 - 2\<close>. A negative index
  and an index of \<open>2^32 - 1\<close> or more are no array indices: the assignment sets a
  property that is no element, so the elements and the length stay as they are. An
  array index inside the array replaces the element; at \<open>length\<close> it appends; beyond
  \<open>length\<close> it leaves holes before the new element. The array with holes is \<open>None\<close>:
  \<open>generateCorridorSegments\<close> reads \<open>.z\<close> of a hole, which is a \<open>TypeError\<close>.
\<close>

definition arrayAssign :: "'a list \<Rightarrow> int \<Rightarrow> 'a \<Rightarrow> 'a list option" where
  "arrayAssign xs i v =
     (if i < 0 \<or> 4294967295 \<le> i then Some xs
      else if nat i < length xs then Some (xs[nat i := v])
      else if nat i = length xs then Some (xs @ [v])
      else None)"

text \<open>\<open>{ ...newPosition, z: newFloor ?? newPosition.z ?? currentFloorIndex }\<close>.\<close>

definition stampedVertex :: "('np, 'cp) store \<Rightarrow> Position \<Rightarrow> int option \<Rightarrow> Position" where
  "stampedVertex st newPosition newFloor =
     newPosition\<lparr> pos_z :=
       Some (case newFloor of
               Some f \<Rightarrow> f
             | None \<Rightarrow> orElse (pos_z newPosition) (currentFloorIndex (canvasState st))) \<rparr>"

definition updateCorridorVertex ::
  "nat \<Rightarrow> ('np, 'cp) store \<Rightarrow> string \<Rightarrow> int \<Rightarrow> Position \<Rightarrow> int option
    \<Rightarrow> ('np, 'cp) store outcome" where
  "updateCorridorVertex depth st corridorId vertexIndex newPosition newFloor =
     (case find (\<lambda>c. cor_id c = corridorId) (corridors st) of
        None \<Rightarrow> Returned st
      | Some corridor \<Rightarrow>
          (let vertex = stampedVertex st newPosition newFloor
           in case arrayAssign (cor_path corridor) vertexIndex vertex of
                None \<Rightarrow> Threw TypeError st
              | Some updatedPath \<Rightarrow> updateCorridor depth st corridorId (pathUpdate updatedPath)))"

definition deleteCorridor_set :: "('np, 'cp) store \<Rightarrow> string \<Rightarrow> ('np, 'cp) store" where
  "deleteCorridor_set st ident =
     st\<lparr> corridors := filter (\<lambda>corridor. cor_id corridor \<noteq> ident) (corridors st),
         pathSequence := renumber (filter (\<lambda>item. item_id item \<noteq> ident) (pathSequence st)) \<rparr>"

definition deleteCorridor ::
  "nat \<Rightarrow> ('np, 'cp) store \<Rightarrow> string \<Rightarrow> ('np, 'cp) store outcome" where
  "deleteCorridor depth st ident = reorderPathSequence depth (deleteCorridor_set st ident)"

subsection \<open>Floor operations\<close>

text \<open>\<open>deleteFloor\<close> touches neither the path sequence nor the edges.\<close>

definition deleteFloor :: "('np, 'cp) store \<Rightarrow> int \<Rightarrow> ('np, 'cp) store" where
  "deleteFloor st floorIndex =
     (let newFloors = filter (\<lambda>f. floor_index f \<noteq> floorIndex) (floors st);
          newNodes = filter (\<lambda>n. node_floorIndex n \<noteq> floorIndex) (nodes st);
          newCorridors = filter (\<lambda>c. cor_floorIndex c \<noteq> floorIndex
                            \<and> \<not> (cor_isCrossFloor c
                                  \<and> (cor_fromFloor c = Some floorIndex
                                      \<or> cor_toFloor c = Some floorIndex))) (corridors st);
          cur = currentFloorIndex (canvasState st);
          newCurrentFloor = (case newFloors of
                               f # _ \<Rightarrow> if cur = floorIndex then floor_index f else cur
                             | [] \<Rightarrow> cur);
          image = (case find (\<lambda>f. floor_index f = newCurrentFloor) newFloors of
                     None \<Rightarrow> None
                   | Some f \<Rightarrow> if floor_backgroundImage f = [] then None
                               else Some (floor_backgroundImage f))
      in st\<lparr> floors := newFloors, nodes := newNodes, corridors := newCorridors,
             canvasState := (canvasState st)\<lparr> currentFloorIndex := newCurrentFloor,
                                               cs_backgroundImage := image \<rparr> \<rparr>)"

text \<open>
  \<open>addFloor\<close> without the asynchronous loading of the image dimensions, which writes
  the \<open>floorDimensions\<close> lookup only.
\<close>

definition addFloor :: "('np, 'cp) store \<Rightarrow> Floor \<Rightarrow> ('np, 'cp) store" where
  "addFloor st newFloor =
     (if floors st = []
      then st\<lparr> floors := floors st @ [newFloor],
               canvasState := (canvasState st)\<lparr>
                 cs_backgroundImage := Some (floor_backgroundImage newFloor),
                 currentFloorIndex := floor_index newFloor,
                 cs_scale := floor_scale newFloor,
                 cs_pan := floor_pan newFloor \<rparr> \<rparr>
      else st\<lparr> floors := floors st @ [newFloor] \<rparr>)"

definition setCurrentFloor :: "('np, 'cp) store \<Rightarrow> int \<Rightarrow> ('np, 'cp) store" where
  "setCurrentFloor st floorIndex =
     (case find (\<lambda>f. floor_index f = floorIndex) (floors st) of
        None \<Rightarrow> st
      | Some fl \<Rightarrow>
          st\<lparr> canvasState := (canvasState st)\<lparr>
                 currentFloorIndex := floorIndex,
                 cs_backgroundImage := Some (floor_backgroundImage fl),
                 cs_scale := floor_scale fl,
                 cs_pan := floor_pan fl \<rparr> \<rparr>)"

subsection \<open>Queries\<close>

definition getVisibleNodes :: "('np, 'cp) store \<Rightarrow> 'np Node list" where
  "getVisibleNodes st =
     filter (\<lambda>node. node_floorIndex node = currentFloorIndex (canvasState st)) (nodes st)"

definition getVisibleCorridors :: "('np, 'cp) store \<Rightarrow> 'cp Corridor list" where
  "getVisibleCorridors st =
     filter (\<lambda>corridor.
        length (getSegmentsForFloor (cor_segments corridor)
                  (currentFloorIndex (canvasState st))) > 0) (corridors st)"

text \<open>
  The centroid of a node. For a polygon-shaped node with an empty polygon the source
  divides 0 by 0 and the coordinates are \<open>NaN\<close>; this centroid is \<open>None\<close>, and every
  comparison with its distance is false.
\<close>

definition getNodeCentroid :: "'np Node \<Rightarrow> Position option" where
  "getNodeCentroid node =
     (case node_polygon node of
        None \<Rightarrow> Some (node_position node)
      | Some poly \<Rightarrow>
          if node_shape node = Polygon
          then (if poly = [] then None
                else Some \<lparr> pos_x = sum_list (map pos_x poly) / real (length poly),
                            pos_y = sum_list (map pos_y poly) / real (length poly),
                            pos_z = Some (node_floorIndex node) \<rparr>)
          else Some (node_position node))"

definition centroidDistance :: "Position \<Rightarrow> 'np Node \<Rightarrow> real option" where
  "centroidDistance position node =
     (case getNodeCentroid node of
        None \<Rightarrow> None
      | Some centroid \<Rightarrow>
          Some (sqrt ((pos_x centroid - pos_x position)\<^sup>2 + (pos_y centroid - pos_y position)\<^sup>2)))"

definition nodeWithin :: "Position \<Rightarrow> real \<Rightarrow> 'np Node \<Rightarrow> bool" where
  "nodeWithin position tolerance node =
     (case centroidDistance position node of None \<Rightarrow> False | Some distance \<Rightarrow> distance < tolerance)"

text \<open>
  The distance from a point to a segment; \<open>None\<close> for a segment of length zero, which
  the loop skips (\<open>continue\<close>).
\<close>

definition segmentDistance :: "Position \<Rightarrow> CorridorSegment \<Rightarrow> real option" where
  "segmentDistance position segment =
     (let A = pos_x position - pos_x (seg_start segment);
          B = pos_y position - pos_y (seg_start segment);
          C = pos_x (seg_end segment) - pos_x (seg_start segment);
          D = pos_y (seg_end segment) - pos_y (seg_start segment);
          dot = A * C + B * D;
          lenSq = C * C + D * D
      in if lenSq = 0 then None
         else (let param = dot / lenSq;
                   xx = (if param < 0 then pos_x (seg_start segment)
                         else if param > 1 then pos_x (seg_end segment)
                         else pos_x (seg_start segment) + param * C);
                   yy = (if param < 0 then pos_y (seg_start segment)
                         else if param > 1 then pos_y (seg_end segment)
                         else pos_y (seg_start segment) + param * D);
                   dx = pos_x position - xx;
                   dy = pos_y position - yy
               in Some (sqrt (dx * dx + dy * dy))))"

definition segmentWithin :: "Position \<Rightarrow> real \<Rightarrow> CorridorSegment \<Rightarrow> bool" where
  "segmentWithin position tolerance segment =
     (case segmentDistance position segment of
        None \<Rightarrow> False | Some distance \<Rightarrow> distance < tolerance)"

definition corridorWithin :: "int \<Rightarrow> Position \<Rightarrow> real \<Rightarrow> 'cp Corridor \<Rightarrow> bool" where
  "corridorWithin floorIndex position tolerance corridor =
     list_ex (segmentWithin position tolerance)
       (getSegmentsForFloor (cor_segments corridor) floorIndex)"

text \<open>
  Both loops of \<open>getElementByPosition\<close> return at the first element that passes the
  test, which is \<open>find\<close>. The tolerance is optional and defaults to 20.
\<close>

definition getElementByPosition ::
  "('np, 'cp) store \<Rightarrow> Position \<Rightarrow> real option \<Rightarrow> (string \<times> ItemType) option" where
  "getElementByPosition st position tol =
     (let tolerance = orElse tol 20
      in case find (nodeWithin position tolerance) (getVisibleNodes st) of
           Some node \<Rightarrow> Some (node_id node, NodeItem)
         | None \<Rightarrow>
             (case find (corridorWithin (currentFloorIndex (canvasState st)) position tolerance)
                     (getVisibleCorridors st) of
                Some corridor \<Rightarrow> Some (cor_id corridor, CorridorItem)
              | None \<Rightarrow> None))"

subsection \<open>Export and load\<close>

text \<open>
  The persisted document. \<open>loadProject\<close> defaults every collection it does not find
  (\<open>data.nodes || []\<close>), so each is optional here; a persisted corridor may lack its
  \<open>segments\<close>, which is why that property is kept beside the corridor, \<open>None\<close> when the
  document lacks it. The time stamps of \<open>exportData\<close> come from the clock and are an
  argument.
\<close>

record 'cp PersistedCorridor =
  pc_corridor :: "'cp Corridor"
  pc_segments :: "CorridorSegment list option"

record Metadata =
  md_version :: string
  md_created :: string
  md_modified :: string

record ('np, 'cp) AnnotationData =
  data_nodes :: "'np Node list option"
  data_corridors :: "'cp PersistedCorridor list option"
  data_edges :: "Edge list option"
  data_pathSequence :: "PathSequenceItem list option"
  data_floors :: "Floor list option"
  data_projectId :: "ProjectIdentification option"
  data_journey_reflection :: "JourneyReflection option"
  data_metadata :: Metadata

definition exportData :: "('np, 'cp) store \<Rightarrow> string \<Rightarrow> ('np, 'cp) AnnotationData" where
  "exportData st now =
     \<lparr> data_nodes = Some (nodes st),
       data_corridors =
         Some (map (\<lambda>c. \<lparr> pc_corridor = c, pc_segments = Some (cor_segments c) \<rparr>) (corridors st)),
       data_edges = Some (edges st),
       data_pathSequence = Some (pathSequence st),
       data_floors = Some (floors st),
       data_projectId = Some (projectId st),
       data_journey_reflection = journeyReflection st,
       data_metadata = \<lparr> md_version = ''3.0'', md_created = now, md_modified = now \<rparr> \<rparr>"

definition loadedCorridor :: "'cp PersistedCorridor \<Rightarrow> 'cp Corridor" where
  "loadedCorridor pc =
     (pc_corridor pc)\<lparr> cor_segments :=
        (case pc_segments pc of
           Some segs \<Rightarrow> segs
         | None \<Rightarrow> generateCorridorSegments (cor_path (pc_corridor pc))) \<rparr>"

definition loadProject ::
  "('np, 'cp) store \<Rightarrow> ('np, 'cp) AnnotationData \<Rightarrow> ('np, 'cp) store" where
  "loadProject st d =
     (let st1 = st\<lparr> nodes := orElse (data_nodes d) [],
                    corridors := map loadedCorridor (orElse (data_corridors d) []),
                    edges := orElse (data_edges d) [],
                    pathSequence := orElse (data_pathSequence d) [],
                    floors := orElse (data_floors d) [],
                    projectId := orElse (data_projectId d)
                       \<lparr> buildingId = [], architectId = [], routeId = [] \<rparr>,
                    journeyReflection := data_journey_reflection d \<rparr>
      in case data_floors d of
           Some (firstFloor # _) \<Rightarrow>
             st1\<lparr> canvasState :=
                    \<lparr> cs_scale = floor_scale firstFloor, cs_pan = floor_pan firstFloor,
                      cs_backgroundImage = Some (floor_backgroundImage firstFloor),
                      currentFloorIndex = floor_index firstFloor \<rparr> \<rparr>
         | _ \<Rightarrow> st1)"

section \<open>Properties and scenarios\<close>

text \<open>The ids that an edge may refer to: those of the nodes and of the corridors.\<close>

definition elementIds :: "('np, 'cp) store \<Rightarrow> string list" where
  "elementIds st = map node_id (nodes st) @ map cor_id (corridors st)"

definition noDanglingEdges :: "('np, 'cp) store \<Rightarrow> bool" where
  "noDanglingEdges st =
     list_all (\<lambda>e. edge_from e \<in> set (elementIds st) \<and> edge_to e \<in> set (elementIds st))
       (edges st)"

definition zMatchesFloor :: "'np Node \<Rightarrow> bool" where
  "zMatchesFloor node = (pos_z (node_position node) = Some (node_floorIndex node))"

text \<open>Running one operation after another; a throw ends the run.\<close>

definition andThen :: "'a outcome \<Rightarrow> ('a \<Rightarrow> 'a outcome) \<Rightarrow> 'a outcome" where
  "andThen r f = (case r of Returned s \<Rightarrow> f s | Threw e s \<Rightarrow> Threw e s)"

definition planPoint :: "real \<Rightarrow> real \<Rightarrow> Position" where
  "planPoint a b = \<lparr> pos_x = a, pos_y = b, pos_z = None \<rparr>"

definition planPointOn :: "real \<Rightarrow> real \<Rightarrow> int \<Rightarrow> Position" where
  "planPointOn a b f = \<lparr> pos_x = a, pos_y = b, pos_z = Some f \<rparr>"

text \<open>The initial state of the store.\<close>

definition initialStore :: "(unit, unit) store" where
  "initialStore =
     \<lparr> nodes = [], corridors = [], edges = [], pathSequence = [], floors = [],
       projectId = \<lparr> buildingId = [], architectId = [], routeId = [] \<rparr>,
       journeyReflection = None,
       canvasState = \<lparr> cs_scale = 1, cs_pan = planPoint 0 0, cs_backgroundImage = None,
                       currentFloorIndex = 0 \<rparr>,
       currentNode = None, currentCorridor = None \<rparr>"

definition pointNode :: "string \<Rightarrow> NodeType \<Rightarrow> Position \<Rightarrow> unit Node" where
  "pointNode ident t p =
     \<lparr> node_id = ident, node_type = t, node_shape = Circle, node_position = p,
       node_floorIndex = 0, node_polygon = None, node_design_importance = ImpNeutral,
       node_payload = () \<rparr>"

definition linkCorridor ::
  "string \<Rightarrow> string option \<Rightarrow> string option \<Rightarrow> Position list \<Rightarrow> unit Corridor" where
  "linkCorridor ident a b path =
     \<lparr> cor_id = ident, cor_path = path, cor_segments = [], cor_floorIndex = 0,
       cor_fromFloor = None, cor_toFloor = None, cor_isCrossFloor = False,
       cor_width = None, cor_height = None, cor_from = a, cor_to = b,
       cor_design_importance = ImpNeutral, cor_payload = (), cor_notes = None \<rparr>"

text \<open>
  Two nodes joined by a corridor, built by the store's own operations; then the first
  node is deleted.
\<close>

definition twoNodesJoined :: "(unit, unit) store outcome" where
  "twoNodesJoined =
     andThen (andThen (addNode 4 initialStore (pointNode ''N1'' DecisionPoint (planPoint 0 0)))
       (\<lambda>s. addNode 4 s (pointNode ''N2'' DecisionPoint (planPoint 10 0))))
       (\<lambda>s. addCorridor 4 s
          (linkCorridor ''CS1'' (Some ''N1'') (Some ''N2'') [planPoint 0 0, planPoint 10 0]))"

definition afterDeleteN1 :: "(unit, unit) store outcome" where
  "afterDeleteN1 = andThen twoNodesJoined (\<lambda>s. deleteNode 4 s ''N1'')"

text \<open>The corridor of the cross-floor scenario.\<close>

definition crossFloorCorridor :: "unit Corridor" where
  "crossFloorCorridor =
     linkCorridor ''CS1'' None None [planPointOn 0 0 0, planPointOn 10 10 1]"

definition plainFloor :: "string \<Rightarrow> int \<Rightarrow> Floor" where
  "plainFloor ident i =
     \<lparr> floor_id = ident, floor_name = ident, floor_index = i,
       floor_backgroundImage = ''data:image/png;base64,'', floor_scale = 1,
       floor_pan = planPoint 0 0 \<rparr>"

text \<open>
  A building of two floors with one node drawn on floor 0, seen from floor 0 and, after
  \<open>setCurrentFloor\<close>, from floor 1.
\<close>

definition nodeOnGroundFloor :: "(unit, unit) store" where
  "nodeOnGroundFloor =
     storeAfter (addNode 1
       (addFloor (addFloor initialStore (plainFloor ''F0'' 0)) (plainFloor ''F1'' 1))
       (pointNode ''N1'' DecisionPoint (planPoint 0 0)))"

definition viewedFromUpperFloor :: "(unit, unit) store" where
  "viewedFromUpperFloor = setCurrentFloor nodeOnGroundFloor 1"

definition positionUpdate :: "Position \<Rightarrow> unit NodeUpdates" where
  "positionUpdate p =
     \<lparr> upd_node_id = None, upd_node_type = None, upd_node_shape = None,
       upd_node_position = Some p, upd_node_floorIndex = None, upd_node_polygon = None,
       upd_node_design_importance = None, upd_node_payload = None \<rparr>"

text \<open>Two nodes near the origin: A, drawn first, at distance 5 and B at distance 1.\<close>

definition twoNodesNearOrigin :: "(unit, unit) store" where
  "twoNodesNearOrigin =
     storeAfter (andThen (addNode 1 initialStore (pointNode ''A'' DecisionPoint (planPoint 3 4)))
       (\<lambda>s. addNode 1 s (pointNode ''B'' DecisionPoint (planPoint 0 1))))"

text \<open>The nodes as the store holds them in the scenarios above.\<close>

definition nodeA :: "unit Node" where
  "nodeA = pointNode ''A'' DecisionPoint (planPointOn 3 4 0)"

definition nodeB :: "unit Node" where
  "nodeB = pointNode ''B'' DecisionPoint (planPointOn 0 1 0)"

definition nodeN1 :: "unit Node" where
  "nodeN1 = pointNode ''N1'' DecisionPoint (planPointOn 0 0 0)"

definition nodeN2 :: "unit Node" where
  "nodeN2 = pointNode ''N2'' DecisionPoint (planPointOn 10 0 0)"

text \<open>
  Four nodes whose ids are pairwise different and contain the separator of the edge ids;
  then the edges of the id A-B-C are deleted.
\<close>

definition dashedIds :: "(unit, unit) store" where
  "dashedIds =
     storeAfter
       (andThen (andThen (andThen
          (addNode 1 initialStore (pointNode ''A'' DecisionPoint (planPoint 0 0)))
          (\<lambda>s. addNode 1 s (pointNode ''B-C'' DecisionPoint (planPoint 10 0))))
          (\<lambda>s. addNode 1 s (pointNode ''A-B'' DecisionPoint (planPoint 20 0))))
          (\<lambda>s. addNode 1 s (pointNode ''C'' DecisionPoint (planPoint 30 0))))"

definition dashedIdsEdgeDeleted :: "(unit, unit) store" where
  "dashedIdsEdgeDeleted = deleteEdge dashedIds ''A-B-C''"

subsection \<open>The sequencer: invariant, measure and scenarios\<close>

text \<open>
  An output item comes from the sequence when it is one of its items up to the order.
  The invariant of the walk: the processed ids are the ids appended so far, each once
  and each an id of the sequence; the orders appended are 0, 1, 2, ...; the running order
  is the number of appended items. The measure is the number of ids of the sequence not
  yet processed. \<open>targetsSequenced\<close> says that every non-empty \<open>to\<close> of a corridor is
  the id of an item of the sequence.
\<close>

definition fromSequence :: "PathSequenceItem list \<Rightarrow> PathSequenceItem \<Rightarrow> bool" where
  "fromSequence ps i = (i\<lparr> item_order := 0 \<rparr> \<in> set (map (\<lambda>p. p\<lparr> item_order := 0 \<rparr>) ps))"

definition walkInv :: "PathSequenceItem list \<Rightarrow> int \<Rightarrow> walk \<Rightarrow> bool" where
  "walkInv ps ord w \<longleftrightarrow>
     processedItems w = set (map item_id (reorderedSequence w))
     \<and> distinct (map item_id (reorderedSequence w))
     \<and> processedItems w \<subseteq> set (map item_id ps)
     \<and> map item_order (reorderedSequence w) = map int [0 ..< length (reorderedSequence w)]
     \<and> ord = int (length (reorderedSequence w))
     \<and> list_all (fromSequence ps) (reorderedSequence w)"

definition unprocessed :: "PathSequenceItem list \<Rightarrow> walk \<Rightarrow> nat" where
  "unprocessed ps w = card (set (map item_id ps) - processedItems w)"

definition targetsSequenced :: "PathSequenceItem list \<Rightarrow> 'cp Corridor list \<Rightarrow> bool" where
  "targetsSequenced ps cs =
     list_all (\<lambda>c. case cor_to c of
                     None \<Rightarrow> True
                   | Some t \<Rightarrow> t = [] \<or> t \<in> set (map item_id ps)) cs"

definition pathOk ::
  "nat \<Rightarrow> PathSequenceItem list \<Rightarrow> 'cp Corridor list \<Rightarrow> bool" where
  "pathOk d ps cs \<longleftrightarrow>
     (\<forall>nodeId ord w. walkInv ps ord w \<longrightarrow>
        (unprocessed ps w < d
          \<or> (nodeId \<in> set (map item_id ps) \<and> nodeId \<notin> processedItems w \<and> unprocessed ps w \<le> d)) \<longrightarrow>
        (\<exists>ord' w'. processPath d ps cs nodeId ord w = Some (ord', w')
            \<and> walkInv ps ord' w' \<and> processedItems w \<subseteq> processedItems w'))"

text \<open>
  A cycle between E1 and N2, and the id C3 left in the sequence by the deletion of N3.
\<close>

definition cycleWithGhost :: "(unit, unit) store" where
  "cycleWithGhost =
     storeAfter
       (andThen (andThen (andThen (andThen (andThen (andThen
          (addNode 6 initialStore (pointNode ''E1'' EntranceExit (planPoint 0 0)))
          (\<lambda>s. addNode 6 s (pointNode ''N2'' DecisionPoint (planPoint 10 0))))
          (\<lambda>s. addNode 6 s (pointNode ''N3'' DecisionPoint (planPoint 20 0))))
          (\<lambda>s. addCorridor 6 s (linkCorridor ''C1'' (Some ''E1'') (Some ''N2'')
                   [planPoint 0 0, planPoint 10 0])))
          (\<lambda>s. addCorridor 6 s (linkCorridor ''C2'' (Some ''N2'') (Some ''E1'')
                   [planPoint 10 0, planPoint 0 0])))
          (\<lambda>s. addCorridor 6 s (linkCorridor ''C3'' (Some ''N3'') (Some ''E1'')
                   [planPoint 20 0, planPoint 0 0])))
          (\<lambda>s. deleteNode 6 s ''N3''))"

text \<open>
  The store that the second \<open>addNode\<close> of the id A hands to the sequencer, after a
  corridor of the id C was added twice.
\<close>

definition duplicatedIds :: "(unit, unit) store" where
  "duplicatedIds =
     addNode_set
       (storeAfter (andThen (andThen
          (addNode 2 initialStore (pointNode ''A'' DecisionPoint (planPoint 0 0)))
          (\<lambda>s. addCorridor 2 s (linkCorridor ''C'' None None [planPoint 0 0, planPoint 5 0])))
          (\<lambda>s. addCorridor 2 s (linkCorridor ''C'' None None [planPoint 0 0, planPoint 5 0]))))
       (pointNode ''A'' DecisionPoint (planPoint 1 1))"

text \<open>
  The store that \<open>addCorridor\<close> hands to the sequencer when a corridor from X to X is
  added, X being the target of a corridor from the node S but no item of the sequence.
\<close>

definition selfLoop :: "(unit, unit) store" where
  "selfLoop =
     addCorridor_set
       (storeAfter (andThen
          (addNode 3 initialStore (pointNode ''S'' DecisionPoint (planPoint 0 0)))
          (\<lambda>s. addCorridor 3 s (linkCorridor ''C1'' (Some ''S'') (Some ''X'')
                   [planPoint 0 0, planPoint 5 0]))))
       (linkCorridor ''C2'' (Some ''X'') (Some ''X'') [planPoint 5 0, planPoint 5 5])"

text \<open>
  The linear path: the entrance E1, the decision point DP1 and the destination AD1, the
  corridor CS1 from E1 to DP1, and the store that \<open>addCorridor\<close> hands to the sequencer
  when the corridor CS2 from DP1 to AD1 is added.
\<close>

definition linearPathBuilt :: "(unit, unit) store" where
  "linearPathBuilt =
     storeAfter
       (andThen (andThen (andThen
          (addNode 3 initialStore (pointNode ''E1'' EntranceExit (planPoint 0 0)))
          (\<lambda>s. addNode 3 s (pointNode ''DP1'' DecisionPoint (planPoint 10 0))))
          (\<lambda>s. addNode 3 s (pointNode ''AD1'' ActivityDestination (planPoint 20 0))))
          (\<lambda>s. addCorridor 3 s (linkCorridor ''CS1'' (Some ''E1'') (Some ''DP1'')
                   [planPoint 0 0, planPoint 10 0])))"

definition linearPathInput :: "(unit, unit) store" where
  "linearPathInput =
     addCorridor_set linearPathBuilt
       (linkCorridor ''CS2'' (Some ''DP1'') (Some ''AD1'') [planPoint 10 0, planPoint 20 0])"

text \<open>
  A building of three floors seen from floor 2, and a corridor whose first vertex carries
  no floor.
\<close>

definition upperFloorView :: "(unit, unit) store" where
  "upperFloorView =
     setCurrentFloor
       (addFloor (addFloor (addFloor initialStore (plainFloor ''F0'' 0)) (plainFloor ''F1'' 1))
          (plainFloor ''F2'' 2)) 2"

definition halfStampedCorridor :: "unit Corridor" where
  "halfStampedCorridor =
     linkCorridor ''CS7'' None None [planPoint 0 0, planPointOn 10 10 1]"

text \<open>
  Two stores on which a sequencer run or a new derivation changes something: the two
  joined nodes after the edge N1-CS1 was deleted, and a corridor on one floor that was
  added with a floor range.
\<close>

definition edgeDeleted :: "(unit, unit) store" where
  "edgeDeleted = deleteEdge (storeAfter twoNodesJoined) ''N1-CS1''"

definition rangedCorridor :: "(unit, unit) store" where
  "rangedCorridor =
     storeAfter (addCorridor 1 initialStore
       ((linkCorridor ''CS1'' None None [planPoint 0 0, planPoint 10 0])
          \<lparr> cor_fromFloor := Some 3, cor_toFloor := Some 3 \<rparr>))"

text \<open>
  A corridor is derived from a path when it holds the path and the segments, the
  cross-floor flag and the floor range that \<open>updateCorridor\<close> computes from it.
\<close>

definition derivedFrom :: "Position list \<Rightarrow> 'cp Corridor \<Rightarrow> bool" where
  "derivedFrom path c \<longleftrightarrow>
     cor_path c = path
     \<and> cor_segments c = generateCorridorSegments path
     \<and> cor_isCrossFloor c = hasFloorTransition (generateCorridorSegments path)
     \<and> cor_fromFloor c = (if hasFloorTransition (generateCorridorSegments path)
                          then mathMin (map floorOf path) else None)
     \<and> cor_toFloor c = (if hasFloorTransition (generateCorridorSegments path)
                        then mathMax (map floorOf path) else None)"

definition vertexOnFloor :: "int \<Rightarrow> Position" where
  "vertexOnFloor f = \<lparr> pos_x = 0, pos_y = 0, pos_z = Some f \<rparr>"

definition sixFloorPath :: "Position list" where
  "sixFloorPath = map vertexOnFloor [0, 1, 2, 3, 4, 5]"

section \<open>Validation of corridor paths\<close>

text \<open>
  C7. The claim says that a path spanning six distinct floor indices fails validation
  with the "too many floors" reason. On the path whose vertices lie on the floors
  0, 1, 2, 3, 4, 5 the check \<open>max - min > 5\<close> compares 5 with 5: the path is reported
  valid with an empty list of reasons, although the reason text of the same check
  announces a maximum of five floors. The reason appears from seven floors on.
\<close>

theorem validateCorridorPath_six_floors_pass:
  "map pos_z sixFloorPath = [Some 0, Some 1, Some 2, Some 3, Some 4, Some 5]
   \<and> validateCorridorPath sixFloorPath = (True, [])
   \<and> validateCorridorPath (sixFloorPath @ [vertexOnFloor 6])
       = (False, [''Corridor spans too many floors (max 5 floors)''])"
  by (simp add: validateCorridorPath_def sixFloorPath_def vertexOnFloor_def
      getCorridorFloorRange_def spanExceeds_def floorOf_def)

section \<open>No dangling references\<close>

text \<open>
  C1. The claim says that after any sequence of store operations every edge refers to
  ids of present nodes or corridors. Starting from the initial store, the nodes N1 and
  N2 are added and joined by the corridor CS1; up to here no edge dangles. Then N1 is
  deleted. \<open>deleteNode\<close> removes the corridor with it but filters the path sequence by
  the node's id only, so the item of CS1 stays in the sequence, is appended by the
  sequencer as a remaining item, and the regenerated edge N2-CS1 points to a corridor
  that is no longer stored. (\<open>deleteCorridor\<close> does remove the item of the corridor
  it deletes.)
\<close>

theorem deleteNode_leaves_dangling_edge:
  "hasReturned twoNodesJoined
   \<and> noDanglingEdges (storeAfter twoNodesJoined)
   \<and> hasReturned afterDeleteN1
   \<and> map node_id (nodes (storeAfter afterDeleteN1)) = [''N2'']
   \<and> corridors (storeAfter afterDeleteN1) = []
   \<and> map item_id (pathSequence (storeAfter afterDeleteN1)) = [''N2'', ''CS1'']
   \<and> map (\<lambda>e. (edge_from e, edge_to e)) (edges (storeAfter afterDeleteN1)) = [(''N2'', ''CS1'')]
   \<and> \<not> noDanglingEdges (storeAfter afterDeleteN1)"
  by code_simp

section \<open>Export and load round trip\<close>

lemma loadedCorridor_exported:
  "loadedCorridor \<lparr> pc_corridor = c, pc_segments = Some (cor_segments c) \<rparr> = c"
  by (simp add: loadedCorridor_def)

text \<open>
  C9. Loading what \<open>exportData\<close> returns gives back the nodes, the corridors (with
  their segments, which the document carries), the floors and the path sequence of the
  exporting store, whatever the store was at the time of loading; the edges, the project
  identification and the journey reflection come back as well.
\<close>

theorem loadProject_exportData_roundtrip:
  "nodes (loadProject st0 (exportData st now)) = nodes st
   \<and> corridors (loadProject st0 (exportData st now)) = corridors st
   \<and> floors (loadProject st0 (exportData st now)) = floors st
   \<and> pathSequence (loadProject st0 (exportData st now)) = pathSequence st
   \<and> edges (loadProject st0 (exportData st now)) = edges st
   \<and> projectId (loadProject st0 (exportData st now)) = projectId st
   \<and> journeyReflection (loadProject st0 (exportData st now)) = journeyReflection st"
  by (simp add: loadProject_def exportData_def orElse_def loadedCorridor_exported Let_def
      comp_def split: list.split)

section \<open>Derived fields of a new corridor\<close>

lemma regenerateEdges_fields:
  "nodes (regenerateEdges st) = nodes st"
  "corridors (regenerateEdges st) = corridors st"
  "pathSequence (regenerateEdges st) = pathSequence st"
  "floors (regenerateEdges st) = floors st"
  "canvasState (regenerateEdges st) = canvasState st"
  by (simp_all add: regenerateEdges_def)

lemma reorderPathSequence_fields:
  "nodes (storeAfter (reorderPathSequence depth st)) = nodes st"
  "corridors (storeAfter (reorderPathSequence depth st)) = corridors st"
  "floors (storeAfter (reorderPathSequence depth st)) = floors st"
  "canvasState (storeAfter (reorderPathSequence depth st)) = canvasState st"
  by (simp_all add: reorderPathSequence_def regenerateEdges_def split: option.split prod.split)

lemma generateCorridorSegments_length:
  "length (generateCorridorSegments path) = length path - 1"
  by (induction path rule: generateCorridorSegments.induct) simp_all

lemma generateCorridorSegments_nth:
  "i + 1 < length path \<Longrightarrow>
   generateCorridorSegments path ! i = mkSegment (path ! i) (path ! (i + 1))"
proof (induction path arbitrary: i rule: generateCorridorSegments.induct)
  case (1 a b rest)
  then show ?case by (cases i) simp_all
qed simp_all

lemma mathMin_Min: "fs \<noteq> [] \<Longrightarrow> mathMin fs = Some (Min (set fs))"
proof (induction fs)
  case (Cons f fs)
  then show ?case by (cases "fs = []") simp_all
qed simp

lemma mathMax_Max: "fs \<noteq> [] \<Longrightarrow> mathMax fs = Some (Max (set fs))"
proof (induction fs)
  case (Cons f fs)
  then show ?case by (cases "fs = []") simp_all
qed simp

lemma hasFloorTransition_nonempty:
  "hasFloorTransition (generateCorridorSegments path) \<Longrightarrow> path \<noteq> []"
  by (auto simp: hasFloorTransition_def)

lemma stampedPath_length: "length (stampedPath cf path) = length path"
  by (simp add: stampedPath_def)

lemma stampedPath_nth:
  "i < length path \<Longrightarrow>
   stampedPath cf path ! i
     = \<lparr> pos_x = pos_x (path ! i), pos_y = pos_y (path ! i),
         pos_z = Some (case pos_z (path ! i) of None \<Rightarrow> cf | Some z \<Rightarrow> z) \<rparr>"
  by (simp add: stampedPath_def orElse_def)

lemma floorOf_stampedPath_nth:
  "i < length path \<Longrightarrow>
   floorOf (stampedPath cf path ! i) = (case pos_z (path ! i) of None \<Rightarrow> cf | Some z \<Rightarrow> z)"
  by (simp add: stampedPath_nth floorOf_def)

lemma set_map_nth: "set (map g xs) = (\<lambda>i. g (xs ! i)) ` {..< length xs}"
proof -
  have "set xs = (\<lambda>i. xs ! i) ` {..< length xs}"
    using nth_image [of "length xs" xs] by (simp add: lessThan_atLeast0)
  then have "g ` set xs = g ` ((\<lambda>i. xs ! i) ` {..< length xs})" by simp
  then show ?thesis by (simp add: image_image)
qed

lemma floors_of_stampedPath:
  "set (map floorOf (stampedPath cf path))
     = (\<lambda>i. case pos_z (path ! i) of None \<Rightarrow> cf | Some z \<Rightarrow> z) ` {..< length path}"
proof -
  have "set (map floorOf (stampedPath cf path))
          = (\<lambda>i. floorOf (stampedPath cf path ! i)) ` {..< length (stampedPath cf path)}"
    by (rule set_map_nth)
  also have "\<dots> = (\<lambda>i. case pos_z (path ! i) of None \<Rightarrow> cf | Some z \<Rightarrow> z) ` {..< length path}"
    by (rule image_cong) (simp_all add: floorOf_stampedPath_nth stampedPath_length)
  finally show ?thesis .
qed

text \<open>
  C8. The corridor that \<open>addCorridor\<close> stores is the last of the collection, on the
  current floor. Its path has the vertices of the given path, each with its own \<open>x\<close>
  and \<open>y\<close> and with the floor \<open>z\<close> it was given or, when it was given none, the
  current floor. Its segments are the consecutive pairs of these stored vertices, each
  with the floors of its two ends and the flag that says whether they differ. The
  corridor is flagged cross-floor exactly when one of the segments is, that is when two
  neighbouring vertices lie on different floors; and then \<open>fromFloor\<close> and \<open>toFloor\<close>
  are the least and the greatest floor of the vertices. This holds whether or not the
  sequencer that runs afterwards returns.
\<close>

theorem addCorridor_derives_segments:
  fixes st :: "('np, 'cp) store" and corridor :: "'cp Corridor" and depth :: nat
  defines "cf \<equiv> currentFloorIndex (canvasState st)"
  defines "given \<equiv> cor_path corridor"
  defines "floorAt \<equiv> \<lambda>i. (case pos_z (cor_path corridor ! i) of None \<Rightarrow> cf | Some z \<Rightarrow> z)"
  defines "stored \<equiv> last (corridors (storeAfter (addCorridor depth st corridor)))"
  shows "corridors (storeAfter (addCorridor depth st corridor)) = corridors st @ [stored]
    \<and> cor_id stored = cor_id corridor
    \<and> cor_floorIndex stored = cf
    \<and> length (cor_path stored) = length given
    \<and> (\<forall>i. i < length given \<longrightarrow>
          cor_path stored ! i
            = \<lparr> pos_x = pos_x (given ! i), pos_y = pos_y (given ! i),
                pos_z = Some (floorAt i) \<rparr>)
    \<and> length (cor_segments stored) = length given - 1
    \<and> (\<forall>i. i + 1 < length given \<longrightarrow>
          cor_segments stored ! i =
            \<lparr> seg_start = cor_path stored ! i, seg_end = cor_path stored ! (i + 1),
              startFloor = floorAt i, endFloor = floorAt (i + 1),
              seg_isCrossFloor = (floorAt i \<noteq> floorAt (i + 1)) \<rparr>)
    \<and> (cor_isCrossFloor stored \<longleftrightarrow> (\<exists>s \<in> set (cor_segments stored). seg_isCrossFloor s))
    \<and> (cor_isCrossFloor stored \<longleftrightarrow> (\<exists>i. i + 1 < length given \<and> floorAt i \<noteq> floorAt (i + 1)))
    \<and> (cor_isCrossFloor stored \<longrightarrow>
          cor_fromFloor stored = Some (Min (floorAt ` {..< length given}))
          \<and> cor_toFloor stored = Some (Max (floorAt ` {..< length given})))"
proof -
  let ?path = "stampedPath cf given"
  let ?segs = "generateCorridorSegments ?path"
  have cs: "corridors (storeAfter (addCorridor depth st corridor))
            = corridors (addCorridor_set st corridor)"
    by (simp add: addCorridor_def reorderPathSequence_fields)
  have set_cs: "\<exists>c. corridors (addCorridor_set st corridor) = corridors st @ [c]"
    by (simp add: addCorridor_set_def Let_def)
  have stored_eq: "stored = last (corridors (addCorridor_set st corridor))"
    by (simp add: stored_def cs)
  have c1: "corridors (storeAfter (addCorridor depth st corridor)) = corridors st @ [stored]"
    using set_cs by (auto simp: cs stored_eq)
  have ci: "cor_id stored = cor_id corridor"
    by (simp add: stored_eq addCorridor_set_def Let_def)
  have cfl: "cor_floorIndex stored = cf"
    by (simp add: stored_eq addCorridor_set_def Let_def cf_def)
  have p: "cor_path stored = ?path"
    by (simp add: stored_eq addCorridor_set_def Let_def given_def cf_def)
  have s: "cor_segments stored = ?segs"
    by (simp add: stored_eq addCorridor_set_def Let_def given_def cf_def)
  have x: "cor_isCrossFloor stored = hasFloorTransition ?segs"
    by (simp add: stored_eq addCorridor_set_def Let_def given_def cf_def)
  have f: "hasFloorTransition ?segs \<Longrightarrow>
             cor_fromFloor stored = mathMin (map floorOf ?path)
             \<and> cor_toFloor stored = mathMax (map floorOf ?path)"
    by (simp add: stored_eq addCorridor_set_def Let_def given_def cf_def)
  have fl: "i < length given \<Longrightarrow> floorOf (?path ! i) = floorAt i" for i
    by (simp add: floorOf_stampedPath_nth floorAt_def given_def)
  have c2: "length (cor_path stored) = length given"
    by (simp add: p stampedPath_length)
  have c3: "\<forall>i. i < length given \<longrightarrow>
          cor_path stored ! i
            = \<lparr> pos_x = pos_x (given ! i), pos_y = pos_y (given ! i),
                pos_z = Some (floorAt i) \<rparr>"
    by (simp add: p stampedPath_nth floorAt_def given_def)
  have c4: "length (cor_segments stored) = length given - 1"
    by (simp add: s generateCorridorSegments_length stampedPath_length)
  have segnth: "i + 1 < length given \<Longrightarrow>
          cor_segments stored ! i =
            \<lparr> seg_start = cor_path stored ! i, seg_end = cor_path stored ! (i + 1),
              startFloor = floorAt i, endFloor = floorAt (i + 1),
              seg_isCrossFloor = (floorAt i \<noteq> floorAt (i + 1)) \<rparr>" for i
  proof -
    assume i: "i + 1 < length given"
    then have "i + 1 < length ?path" by (simp add: stampedPath_length)
    then have "?segs ! i = mkSegment (?path ! i) (?path ! (i + 1))"
      by (rule generateCorridorSegments_nth)
    moreover have "floorOf (?path ! i) = floorAt i" using i by (intro fl) simp
    moreover have "floorOf (?path ! (i + 1)) = floorAt (i + 1)" using i by (intro fl) simp
    ultimately show ?thesis by (simp add: s p mkSegment_def)
  qed
  then have c5: "\<forall>i. i + 1 < length given \<longrightarrow>
          cor_segments stored ! i =
            \<lparr> seg_start = cor_path stored ! i, seg_end = cor_path stored ! (i + 1),
              startFloor = floorAt i, endFloor = floorAt (i + 1),
              seg_isCrossFloor = (floorAt i \<noteq> floorAt (i + 1)) \<rparr>"
    by blast
  have c6: "cor_isCrossFloor stored \<longleftrightarrow> (\<exists>s \<in> set (cor_segments stored). seg_isCrossFloor s)"
    by (simp add: x s hasFloorTransition_def list_ex_iff)
  have c7: "cor_isCrossFloor stored \<longleftrightarrow> (\<exists>i. i + 1 < length given \<and> floorAt i \<noteq> floorAt (i + 1))"
  proof
    assume "cor_isCrossFloor stored"
    with c6 obtain sg where "sg \<in> set (cor_segments stored)" "seg_isCrossFloor sg" by blast
    then obtain i where i: "i < length (cor_segments stored)" "cor_segments stored ! i = sg"
      by (auto simp: in_set_conv_nth)
    with c4 have "i + 1 < length given" by simp
    with segnth [OF this] i \<open>seg_isCrossFloor sg\<close>
    show "\<exists>i. i + 1 < length given \<and> floorAt i \<noteq> floorAt (i + 1)" by auto
  next
    assume "\<exists>i. i + 1 < length given \<and> floorAt i \<noteq> floorAt (i + 1)"
    then obtain i where i: "i + 1 < length given" "floorAt i \<noteq> floorAt (i + 1)" by blast
    then have "i < length (cor_segments stored)" using c4 by simp
    then have "cor_segments stored ! i \<in> set (cor_segments stored)" by simp
    moreover have "seg_isCrossFloor (cor_segments stored ! i)"
      using segnth [OF i(1)] i(2) by simp
    ultimately show "cor_isCrossFloor stored" using c6 by blast
  qed
  have c8: "cor_isCrossFloor stored \<longrightarrow>
          cor_fromFloor stored = Some (Min (floorAt ` {..< length given}))
          \<and> cor_toFloor stored = Some (Max (floorAt ` {..< length given}))"
  proof
    assume "cor_isCrossFloor stored"
    then have h: "hasFloorTransition ?segs" by (simp add: x)
    then have ne: "map floorOf ?path \<noteq> []" using hasFloorTransition_nonempty by auto
    have fs: "set (map floorOf ?path) = floorAt ` {..< length given}"
      unfolding floors_of_stampedPath floorAt_def given_def ..
    from f [OF h] ne
    have "cor_fromFloor stored = Some (Min (set (map floorOf ?path)))
          \<and> cor_toFloor stored = Some (Max (set (map floorOf ?path)))"
      by (simp add: mathMin_Min mathMax_Max)
    then show "cor_fromFloor stored = Some (Min (floorAt ` {..< length given}))
          \<and> cor_toFloor stored = Some (Max (floorAt ` {..< length given}))"
      by (simp only: fs)
  qed
  show ?thesis using c1 ci cfl c2 c3 c4 c5 c6 c7 c8 by blast
qed


text \<open>
  The scenario of the claim: the path \<open>[{x:0,y:0,z:0}, {x:10,y:10,z:1}]\<close> gives one
  segment, a cross-floor corridor, \<open>fromFloor\<close> 0 and \<open>toFloor\<close> 1. And on floor 2
  the path \<open>[{x:0,y:0}, {x:10,y:10,z:1}]\<close> is stored with the floors 2 and 1: one
  segment from floor 2 to floor 1, \<open>fromFloor\<close> 1 and \<open>toFloor\<close> 2.
\<close>

theorem addCorridor_derives_segments_witness:
  "length (cor_segments (last (corridors (storeAfter (addCorridor 1 initialStore crossFloorCorridor)))))
     = 1
   \<and> cor_isCrossFloor (last (corridors (storeAfter (addCorridor 1 initialStore crossFloorCorridor))))
   \<and> cor_fromFloor (last (corridors (storeAfter (addCorridor 1 initialStore crossFloorCorridor))))
       = Some 0
   \<and> cor_toFloor (last (corridors (storeAfter (addCorridor 1 initialStore crossFloorCorridor))))
       = Some 1
   \<and> currentFloorIndex (canvasState upperFloorView) = 2
   \<and> cor_path halfStampedCorridor = [planPoint 0 0, planPointOn 10 10 1]
   \<and> cor_path (last (corridors (storeAfter (addCorridor 1 upperFloorView halfStampedCorridor)))) ! 0
       = planPointOn 0 0 2
   \<and> cor_path (last (corridors (storeAfter (addCorridor 1 upperFloorView halfStampedCorridor)))) ! 1
       = planPointOn 10 10 1
   \<and> cor_segments (last (corridors (storeAfter (addCorridor 1 upperFloorView halfStampedCorridor)))) ! 0
       = \<lparr> seg_start = planPointOn 0 0 2, seg_end = planPointOn 10 10 1,
           startFloor = 2, endFloor = 1, seg_isCrossFloor = True \<rparr>
   \<and> cor_isCrossFloor (last (corridors (storeAfter (addCorridor 1 upperFloorView halfStampedCorridor))))
   \<and> cor_fromFloor (last (corridors (storeAfter (addCorridor 1 upperFloorView halfStampedCorridor))))
       = Some 1
   \<and> cor_toFloor (last (corridors (storeAfter (addCorridor 1 upperFloorView halfStampedCorridor))))
       = Some 2"
proof -
  let ?a = "last (corridors (storeAfter (addCorridor 1 initialStore crossFloorCorridor)))"
  let ?b = "last (corridors (storeAfter (addCorridor 1 upperFloorView halfStampedCorridor)))"
  note a = addCorridor_derives_segments [of 1 initialStore crossFloorCorridor]
  note b = addCorridor_derives_segments [of 1 upperFloorView halfStampedCorridor]
  have ga: "cor_path crossFloorCorridor = [planPointOn 0 0 0, planPointOn 10 10 1]"
    by (simp add: crossFloorCorridor_def linkCorridor_def)
  have gb: "cor_path halfStampedCorridor = [planPoint 0 0, planPointOn 10 10 1]"
    by (simp add: halfStampedCorridor_def linkCorridor_def)
  have cfa: "currentFloorIndex (canvasState initialStore) = 0"
    by (simp add: initialStore_def)
  have cfb: "currentFloorIndex (canvasState upperFloorView) = 2"
    by code_simp
  have xa: "cor_isCrossFloor ?a"
    by code_simp
  have xb: "cor_isCrossFloor ?b"
    by code_simp
  have a1: "length (cor_segments ?a) = 1"
  proof -
    from a have "length (cor_segments ?a) = length (cor_path crossFloorCorridor) - 1"
      by blast
    then show ?thesis by (simp add: ga)
  qed
  have a2: "cor_fromFloor ?a = Some 0 \<and> cor_toFloor ?a = Some 1"
  proof -
    let ?f = "\<lambda>i. case pos_z (cor_path crossFloorCorridor ! i) of
                     None \<Rightarrow> currentFloorIndex (canvasState initialStore)
                   | Some z \<Rightarrow> z"
    from a xa have "cor_fromFloor ?a = Some (Min (?f ` {..< length (cor_path crossFloorCorridor)}))
        \<and> cor_toFloor ?a = Some (Max (?f ` {..< length (cor_path crossFloorCorridor)}))"
      by blast
    moreover have "?f ` {..< length (cor_path crossFloorCorridor)} = {0, 1}"
      by (simp add: ga lessThan_Suc planPointOn_def insert_commute)
    ultimately show ?thesis by simp
  qed
  have b0: "cor_path ?b ! 0 = planPointOn 0 0 2"
  proof -
    from b have "0 < length (cor_path halfStampedCorridor) \<longrightarrow>
        cor_path ?b ! 0
          = \<lparr> pos_x = pos_x (cor_path halfStampedCorridor ! 0),
              pos_y = pos_y (cor_path halfStampedCorridor ! 0),
              pos_z = Some (case pos_z (cor_path halfStampedCorridor ! 0) of
                              None \<Rightarrow> currentFloorIndex (canvasState upperFloorView)
                            | Some z \<Rightarrow> z) \<rparr>"
      by blast
    then show ?thesis by (simp add: gb cfb planPoint_def planPointOn_def)
  qed
  have b1: "cor_path ?b ! 1 = planPointOn 10 10 1"
  proof -
    from b have "1 < length (cor_path halfStampedCorridor) \<longrightarrow>
        cor_path ?b ! 1
          = \<lparr> pos_x = pos_x (cor_path halfStampedCorridor ! 1),
              pos_y = pos_y (cor_path halfStampedCorridor ! 1),
              pos_z = Some (case pos_z (cor_path halfStampedCorridor ! 1) of
                              None \<Rightarrow> currentFloorIndex (canvasState upperFloorView)
                            | Some z \<Rightarrow> z) \<rparr>"
      by blast
    then show ?thesis by (simp add: gb cfb planPoint_def planPointOn_def)
  qed
  have bs: "cor_segments ?b ! 0
       = \<lparr> seg_start = planPointOn 0 0 2, seg_end = planPointOn 10 10 1,
           startFloor = 2, endFloor = 1, seg_isCrossFloor = True \<rparr>"
  proof -
    from b have "0 + 1 < length (cor_path halfStampedCorridor) \<longrightarrow>
        cor_segments ?b ! 0 =
            \<lparr> seg_start = cor_path ?b ! 0, seg_end = cor_path ?b ! (0 + 1),
              startFloor = (case pos_z (cor_path halfStampedCorridor ! 0) of
                              None \<Rightarrow> currentFloorIndex (canvasState upperFloorView)
                            | Some z \<Rightarrow> z),
              endFloor = (case pos_z (cor_path halfStampedCorridor ! (0 + 1)) of
                              None \<Rightarrow> currentFloorIndex (canvasState upperFloorView)
                            | Some z \<Rightarrow> z),
              seg_isCrossFloor =
                ((case pos_z (cor_path halfStampedCorridor ! 0) of
                              None \<Rightarrow> currentFloorIndex (canvasState upperFloorView)
                            | Some z \<Rightarrow> z)
                 \<noteq> (case pos_z (cor_path halfStampedCorridor ! (0 + 1)) of
                              None \<Rightarrow> currentFloorIndex (canvasState upperFloorView)
                            | Some z \<Rightarrow> z)) \<rparr>"
      by blast
    then show ?thesis
      using b0 b1 by (simp add: gb cfb planPoint_def planPointOn_def)
  qed
  have b2: "cor_fromFloor ?b = Some 1 \<and> cor_toFloor ?b = Some 2"
  proof -
    let ?f = "\<lambda>i. case pos_z (cor_path halfStampedCorridor ! i) of
                     None \<Rightarrow> currentFloorIndex (canvasState upperFloorView)
                   | Some z \<Rightarrow> z"
    from b xb have "cor_fromFloor ?b = Some (Min (?f ` {..< length (cor_path halfStampedCorridor)}))
        \<and> cor_toFloor ?b = Some (Max (?f ` {..< length (cor_path halfStampedCorridor)}))"
      by blast
    moreover have "?f ` {..< length (cor_path halfStampedCorridor)} = {2, 1}"
      by (simp add: gb cfb lessThan_Suc planPoint_def planPointOn_def insert_commute)
    ultimately show ?thesis by simp
  qed
  show ?thesis
    using a1 xa a2 cfb gb b0 b1 bs xb b2 by blast
qed

section \<open>The floor stamped on node positions\<close>

text \<open>
  C2, as stated, fails for \<open>moveNode\<close>. The node N1 was drawn on floor 0 and carries
  \<open>z = 0\<close>; the view is then switched to floor 1. Moving N1 stamps the current floor 1
  on its position, while its \<open>floorIndex\<close> stays 0.
\<close>

theorem moveNode_z_counterexample:
  "list_all zMatchesFloor (nodes viewedFromUpperFloor)
   \<and> map (\<lambda>n. (pos_z (node_position n), node_floorIndex n))
         (nodes (moveNode viewedFromUpperFloor ''N1'' (planPoint 5 5))) = [(Some 1, 0)]
   \<and> \<not> list_all zMatchesFloor (nodes (moveNode viewedFromUpperFloor ''N1'' (planPoint 5 5)))"
  by code_simp

lemma list_all_map_if:
  "list_all P xs \<Longrightarrow> (\<And>x. c x \<Longrightarrow> P (f x)) \<Longrightarrow>
   list_all P (map (\<lambda>x. if c x then f x else x) xs)"
  by (induction xs) simp_all

lemma list_all_map_new:
  "(\<And>x. c x \<Longrightarrow> Q (f x)) \<Longrightarrow>
   list_all (\<lambda>x. c x \<longrightarrow> Q x) (map (\<lambda>x. if c x then f x else x) xs)"
  by (induction xs) simp_all

lemma move_keeps:
  "list_all zMatchesFloor ns \<Longrightarrow>
   list_all (\<lambda>n. node_id n = ident \<longrightarrow> node_floorIndex n = cf) ns \<Longrightarrow>
   list_all zMatchesFloor
     (map (\<lambda>node. if node_id node = ident
                  then node\<lparr> node_position := position\<lparr> pos_z := Some cf \<rparr> \<rparr>
                  else node) ns)"
  by (induction ns) (simp_all add: zMatchesFloor_def)

lemma zMatchesFloor_updatedNodeOf:
  "upd_node_position u \<noteq> None \<Longrightarrow> zMatchesFloor (updatedNodeOf node u)"
  by (simp add: updatedNodeOf_def zMatchesFloor_def Let_def)

lemma addNode_set_nodes:
  "nodes (addNode_set st node) =
     nodes st @ [node\<lparr> node_floorIndex := currentFloorIndex (canvasState st),
                       node_position := (node_position node)\<lparr>
                         pos_z := Some (currentFloorIndex (canvasState st)) \<rparr> \<rparr>]"
  by (simp add: addNode_set_def Let_def)

lemma addNode_keeps_z:
  "list_all zMatchesFloor (nodes st) \<Longrightarrow> list_all zMatchesFloor (nodes (addNode_set st node))"
  by (simp add: addNode_set_nodes zMatchesFloor_def)

lemma updateNode_set_nodes:
  "nodes (updateNode_set st ident u) =
     map (\<lambda>node. if node_id node = ident then updatedNodeOf node u else node) (nodes st)"
  by (simp add: updateNode_set_def)

lemma updateNode_keeps_z:
  "list_all zMatchesFloor (nodes st) \<Longrightarrow> upd_node_position u \<noteq> None \<Longrightarrow>
   list_all zMatchesFloor (nodes (updateNode_set st ident u))"
  by (simp add: updateNode_set_nodes list_all_map_if zMatchesFloor_updatedNodeOf)

lemma moveNode_nodes:
  "nodes (moveNode st ident position) =
     map (\<lambda>node. if node_id node = ident
                  then node\<lparr> node_position :=
                         position\<lparr> pos_z := Some (currentFloorIndex (canvasState st)) \<rparr> \<rparr>
                  else node) (nodes st)"
  by (simp add: moveNode_def Let_def)

lemma moveNode_stamps_current:
  "list_all (\<lambda>n. node_id n = ident \<longrightarrow>
        pos_z (node_position n) = Some (currentFloorIndex (canvasState st)))
     (nodes (moveNode st ident position))"
  by (simp add: moveNode_nodes list_all_map_new)

lemma moveNode_keeps_z:
  "list_all zMatchesFloor (nodes st) \<Longrightarrow>
   list_all (\<lambda>n. node_id n = ident \<longrightarrow> node_floorIndex n = currentFloorIndex (canvasState st))
     (nodes st) \<Longrightarrow>
   list_all zMatchesFloor (nodes (moveNode st ident position))"
  unfolding moveNode_nodes by (rule move_keeps)

text \<open>
  C2, amended. In a store whose nodes all carry their own floor as \<open>z\<close>, this is still so
  after \<open>addNode\<close> and after \<open>updateNode\<close> with a position in the update. \<open>moveNode\<close>
  stamps the current floor on every node of the given id; the nodes keep their own floor
  as \<open>z\<close> when the moved node lies on the current floor.
\<close>

theorem node_edits_stamp_z:
  fixes st :: "('np, 'cp) store"
  assumes "list_all zMatchesFloor (nodes st)"
  shows "list_all zMatchesFloor (nodes (storeAfter (addNode depth st node)))
    \<and> (upd_node_position u \<noteq> None \<longrightarrow>
           list_all zMatchesFloor (nodes (storeAfter (updateNode depth st ident u))))
    \<and> list_all (\<lambda>n. node_id n = ident \<longrightarrow>
                  pos_z (node_position n) = Some (currentFloorIndex (canvasState st)))
           (nodes (moveNode st ident position))
    \<and> (list_all (\<lambda>n. node_id n = ident \<longrightarrow>
                     node_floorIndex n = currentFloorIndex (canvasState st)) (nodes st)
         \<longrightarrow> list_all zMatchesFloor (nodes (moveNode st ident position)))"
proof -
  have a: "list_all zMatchesFloor (nodes (storeAfter (addNode depth st node)))"
    using assms by (simp add: addNode_def reorderPathSequence_fields addNode_keeps_z)
  have b: "upd_node_position u \<noteq> None \<longrightarrow>
           list_all zMatchesFloor (nodes (storeAfter (updateNode depth st ident u)))"
    using assms by (simp add: updateNode_def reorderPathSequence_fields updateNode_keeps_z)
  have c: "list_all (\<lambda>n. node_id n = ident \<longrightarrow>
        pos_z (node_position n) = Some (currentFloorIndex (canvasState st)))
     (nodes (moveNode st ident position))"
    by (rule moveNode_stamps_current)
  have d: "list_all (\<lambda>n. node_id n = ident \<longrightarrow>
                     node_floorIndex n = currentFloorIndex (canvasState st)) (nodes st)
         \<longrightarrow> list_all zMatchesFloor (nodes (moveNode st ident position))"
    using assms by (simp add: moveNode_keeps_z)
  show ?thesis using a b c d by blast
qed

theorem node_edits_stamp_z_witness:
  "list_all zMatchesFloor (nodes nodeOnGroundFloor)
   \<and> list_all zMatchesFloor
        (nodes (storeAfter (addNode 1 nodeOnGroundFloor
                  (pointNode ''N2'' DecisionPoint (planPoint 7 7)))))
   \<and> list_all zMatchesFloor
        (nodes (storeAfter (updateNode 1 nodeOnGroundFloor ''N1'' (positionUpdate (planPoint 5 5)))))
   \<and> list_all zMatchesFloor (nodes (moveNode nodeOnGroundFloor ''N1'' (planPoint 5 5)))"
proof -
  have h: "list_all zMatchesFloor (nodes nodeOnGroundFloor)"
    by code_simp
  have p: "upd_node_position (positionUpdate (planPoint 5 5)) \<noteq> None"
    by (simp add: positionUpdate_def)
  have f: "list_all (\<lambda>n. node_id n = ''N1'' \<longrightarrow>
              node_floorIndex n = currentFloorIndex (canvasState nodeOnGroundFloor))
             (nodes nodeOnGroundFloor)"
    by code_simp
  from node_edits_stamp_z [OF h, where depth = 1
      and node = "pointNode ''N2'' DecisionPoint (planPoint 7 7)"
      and u = "positionUpdate (planPoint 5 5)" and ident = "''N1''"
      and position = "planPoint 5 5"] h p f
  show ?thesis by blast
qed

section \<open>Vertex indices out of range\<close>

text \<open>
  C3, as stated, fails in three ways. The corridor CS1 has a path of two vertices;
  \<open>updateCorridorVertex\<close> with the index 2, just behind the last vertex, returns and
  leaves a path of three vertices behind. With the index -1 the path keeps its vertices,
  but the corridor is derived again and the sequencer runs: after the edge N1-CS1 was
  deleted, the call brings it back; and a corridor on one floor that was added with a
  floor range 3 to 3 loses that range.
\<close>

theorem updateCorridorVertex_changes_store_counterexample:
  "map (\<lambda>c. (cor_id c, length (cor_path c))) (corridors (storeAfter twoNodesJoined))
     = [(''CS1'', 2)]
   \<and> hasReturned
        (updateCorridorVertex 4 (storeAfter twoNodesJoined) ''CS1'' 2 (planPoint 20 0) None)
   \<and> map (\<lambda>c. (cor_id c, length (cor_path c)))
        (corridors (storeAfter
           (updateCorridorVertex 4 (storeAfter twoNodesJoined) ''CS1'' 2 (planPoint 20 0) None)))
     = [(''CS1'', 3)]
   \<and> storeAfter (updateCorridorVertex 4 (storeAfter twoNodesJoined) ''CS1'' 2 (planPoint 20 0) None)
     \<noteq> storeAfter twoNodesJoined
   \<and> map edge_id (edges edgeDeleted) = [''CS1-N2'']
   \<and> hasReturned (updateCorridorVertex 4 edgeDeleted ''CS1'' (- 1) (planPoint 20 0) None)
   \<and> map edge_id
        (edges (storeAfter (updateCorridorVertex 4 edgeDeleted ''CS1'' (- 1) (planPoint 20 0) None)))
     = [''N1-CS1'', ''CS1-N2'']
   \<and> storeAfter (updateCorridorVertex 4 edgeDeleted ''CS1'' (- 1) (planPoint 20 0) None)
     \<noteq> edgeDeleted
   \<and> map (\<lambda>c. (cor_id c, cor_isCrossFloor c, cor_fromFloor c, cor_toFloor c))
        (corridors rangedCorridor) = [(''CS1'', False, Some 3, Some 3)]
   \<and> map (\<lambda>c. (cor_id c, cor_isCrossFloor c, cor_fromFloor c, cor_toFloor c))
        (corridors (storeAfter
           (updateCorridorVertex 4 rangedCorridor ''CS1'' (- 1) (planPoint 20 0) None)))
     = [(''CS1'', False, None, None)]"
  by code_simp

lemma updateCorridor_fields:
  "nodes (storeAfter (updateCorridor depth st ident u)) = nodes st"
  "floors (storeAfter (updateCorridor depth st ident u)) = floors st"
  "canvasState (storeAfter (updateCorridor depth st ident u)) = canvasState st"
  "corridors (storeAfter (updateCorridor depth st ident u)) =
     map (\<lambda>corridor. if cor_id corridor = ident then updatedCorridorOf corridor u else corridor)
       (corridors st)"
  by (simp_all add: updateCorridor_def reorderPathSequence_fields updateCorridor_set_def)

lemma updatedCorridorOf_path:
  "cor_path (updatedCorridorOf c (pathUpdate path)) = path"
  by (simp add: updatedCorridorOf_def pathUpdate_def mergeCorridor_def orElse_def Let_def)

lemma updatedCorridorOf_derived:
  "cor_id (updatedCorridorOf c (pathUpdate path)) = cor_id c"
  "cor_segments (updatedCorridorOf c (pathUpdate path)) = generateCorridorSegments path"
  "cor_isCrossFloor (updatedCorridorOf c (pathUpdate path))
     = hasFloorTransition (generateCorridorSegments path)"
  "cor_fromFloor (updatedCorridorOf c (pathUpdate path))
     = (if hasFloorTransition (generateCorridorSegments path)
        then mathMin (map floorOf path) else None)"
  "cor_toFloor (updatedCorridorOf c (pathUpdate path))
     = (if hasFloorTransition (generateCorridorSegments path)
        then mathMax (map floorOf path) else None)"
  by (simp_all add: updatedCorridorOf_def pathUpdate_def mergeCorridor_def orElse_def Let_def)

lemma updateCorridor_paths:
  "map cor_path (corridors (storeAfter (updateCorridor depth st ident (pathUpdate path)))) =
     map (\<lambda>c. if cor_id c = ident then path else cor_path c) (corridors st)"
  by (simp add: updateCorridor_fields updatedCorridorOf_path comp_def if_distrib cong: if_cong)

lemma derivedFrom_updatedCorridorOf: "derivedFrom path (updatedCorridorOf c (pathUpdate path))"
  by (simp add: derivedFrom_def updatedCorridorOf_derived updatedCorridorOf_path)

lemma updateCorridor_derived:
  "list_all (\<lambda>c. cor_id c = ident \<longrightarrow> derivedFrom path c)
     (corridors (storeAfter (updateCorridor depth st ident (pathUpdate path))))"
  unfolding updateCorridor_fields
  by (rule list_all_map_new) (rule derivedFrom_updatedCorridorOf)


lemma filter_others:
  "(\<And>x. k (f x) = k x) \<Longrightarrow>
   filter (\<lambda>x. k x \<noteq> a) (map (\<lambda>x. if k x = a then f x else x) xs)
     = filter (\<lambda>x. k x \<noteq> a) xs"
  by (induction xs) simp_all

lemma updateCorridor_others:
  "filter (\<lambda>c. cor_id c \<noteq> ident)
     (corridors (storeAfter (updateCorridor depth st ident (pathUpdate path))))
   = filter (\<lambda>c. cor_id c \<noteq> ident) (corridors st)"
  unfolding updateCorridor_fields by (rule filter_others) (rule updatedCorridorOf_derived(1))

lemma arrayAssign_nonindex:
  "i < 0 \<or> 4294967295 \<le> i \<Longrightarrow> arrayAssign xs i v = Some xs"
  by (simp add: arrayAssign_def)

lemma arrayAssign_at_length:
  "int (length xs) < 4294967295 \<Longrightarrow> arrayAssign xs (int (length xs)) v = Some (xs @ [v])"
  by (simp add: arrayAssign_def)

lemma arrayAssign_beyond:
  "int (length xs) < i \<Longrightarrow> i < 4294967295 \<Longrightarrow> arrayAssign xs i v = None"
  unfolding arrayAssign_def by (simp; linarith)

text \<open>
  C3, amended. For an existing corridor (the first of the given id):
  an array index beyond the length of the path makes the operation throw a \<open>TypeError\<close>
  and leaves the store as it was;
  the index equal to the length appends the new vertex, stamped with its floor, to the
  path, and the operation is \<open>updateCorridor\<close> with the longer path;
  an index that is no array index (negative, or \<open>2^32 - 1\<close> and above) leaves the
  vertices of the path as they are, and the operation is \<open>updateCorridor\<close> with these
  vertices followed by the sequencer: every corridor of the given id receives the path
  and the segments, the cross-floor flag and the floor range derived from it, the other
  corridors, the nodes and the floors stay as they were.
\<close>

theorem updateCorridorVertex_out_of_range:
  fixes st :: "('np, 'cp) store"
  assumes "find (\<lambda>c. cor_id c = corridorId) (corridors st) = Some corridor"
  shows "(int (length (cor_path corridor)) < vertexIndex \<and> vertexIndex < 4294967295 \<longrightarrow>
            updateCorridorVertex depth st corridorId vertexIndex newPosition newFloor
              = Threw TypeError st)
    \<and> (vertexIndex = int (length (cor_path corridor)) \<and> vertexIndex < 4294967295 \<longrightarrow>
          updateCorridorVertex depth st corridorId vertexIndex newPosition newFloor
            = reorderPathSequence depth
                (updateCorridor_set st corridorId
                   (pathUpdate (cor_path corridor @ [stampedVertex st newPosition newFloor])))
          \<and> map cor_path (corridors (storeAfter
               (updateCorridorVertex depth st corridorId vertexIndex newPosition newFloor)))
            = map (\<lambda>c. if cor_id c = corridorId
                        then cor_path corridor @ [stampedVertex st newPosition newFloor]
                        else cor_path c) (corridors st))
    \<and> (vertexIndex < 0 \<or> 4294967295 \<le> vertexIndex \<longrightarrow>
          updateCorridorVertex depth st corridorId vertexIndex newPosition newFloor
            = reorderPathSequence depth
                (updateCorridor_set st corridorId (pathUpdate (cor_path corridor)))
          \<and> map cor_path (corridors (storeAfter
               (updateCorridorVertex depth st corridorId vertexIndex newPosition newFloor)))
            = map (\<lambda>c. if cor_id c = corridorId then cor_path corridor else cor_path c)
                (corridors st)
          \<and> list_all (\<lambda>c. cor_id c = corridorId \<longrightarrow> derivedFrom (cor_path corridor) c)
               (corridors (storeAfter
                  (updateCorridorVertex depth st corridorId vertexIndex newPosition newFloor)))
          \<and> filter (\<lambda>c. cor_id c \<noteq> corridorId)
               (corridors (storeAfter
                  (updateCorridorVertex depth st corridorId vertexIndex newPosition newFloor)))
            = filter (\<lambda>c. cor_id c \<noteq> corridorId) (corridors st)
          \<and> nodes (storeAfter
               (updateCorridorVertex depth st corridorId vertexIndex newPosition newFloor))
              = nodes st
          \<and> floors (storeAfter
               (updateCorridorVertex depth st corridorId vertexIndex newPosition newFloor))
              = floors st)"
proof -
  let ?r = "updateCorridorVertex depth st corridorId vertexIndex newPosition newFloor"
  let ?path = "cor_path corridor"
  let ?v = "stampedVertex st newPosition newFloor"
  have a: "int (length ?path) < vertexIndex \<and> vertexIndex < 4294967295 \<longrightarrow>
             ?r = Threw TypeError st"
    using assms
    by (simp add: updateCorridorVertex_def Let_def arrayAssign_beyond)
  have b: "vertexIndex = int (length ?path) \<and> vertexIndex < 4294967295 \<longrightarrow>
          ?r = reorderPathSequence depth
                 (updateCorridor_set st corridorId (pathUpdate (?path @ [?v])))
          \<and> map cor_path (corridors (storeAfter ?r))
            = map (\<lambda>c. if cor_id c = corridorId then ?path @ [?v] else cor_path c)
                (corridors st)"
  proof
    assume i: "vertexIndex = int (length ?path) \<and> vertexIndex < 4294967295"
    then have "arrayAssign ?path vertexIndex ?v = Some (?path @ [?v])"
      using arrayAssign_at_length [of ?path ?v] by simp
    then have r: "?r = updateCorridor depth st corridorId (pathUpdate (?path @ [?v]))"
      using assms by (simp add: updateCorridorVertex_def Let_def)
    show "?r = reorderPathSequence depth
                 (updateCorridor_set st corridorId (pathUpdate (?path @ [?v])))
          \<and> map cor_path (corridors (storeAfter ?r))
            = map (\<lambda>c. if cor_id c = corridorId then ?path @ [?v] else cor_path c)
                (corridors st)"
      unfolding r by (simp add: updateCorridor_paths) (simp add: updateCorridor_def)
  qed
  have c: "vertexIndex < 0 \<or> 4294967295 \<le> vertexIndex \<longrightarrow>
          ?r = reorderPathSequence depth (updateCorridor_set st corridorId (pathUpdate ?path))
          \<and> map cor_path (corridors (storeAfter ?r))
            = map (\<lambda>c. if cor_id c = corridorId then ?path else cor_path c) (corridors st)
          \<and> list_all (\<lambda>c. cor_id c = corridorId \<longrightarrow> derivedFrom ?path c)
               (corridors (storeAfter ?r))
          \<and> filter (\<lambda>c. cor_id c \<noteq> corridorId) (corridors (storeAfter ?r))
            = filter (\<lambda>c. cor_id c \<noteq> corridorId) (corridors st)
          \<and> nodes (storeAfter ?r) = nodes st
          \<and> floors (storeAfter ?r) = floors st"
  proof
    assume i: "vertexIndex < 0 \<or> 4294967295 \<le> vertexIndex"
    then have "arrayAssign ?path vertexIndex ?v = Some ?path"
      by (rule arrayAssign_nonindex)
    then have r: "?r = updateCorridor depth st corridorId (pathUpdate ?path)"
      using assms by (simp add: updateCorridorVertex_def Let_def)
    have r1: "updateCorridor depth st corridorId (pathUpdate ?path)
          = reorderPathSequence depth (updateCorridor_set st corridorId (pathUpdate ?path))"
      by (simp add: updateCorridor_def)
    show "?r = reorderPathSequence depth (updateCorridor_set st corridorId (pathUpdate ?path))
          \<and> map cor_path (corridors (storeAfter ?r))
            = map (\<lambda>c. if cor_id c = corridorId then ?path else cor_path c) (corridors st)
          \<and> list_all (\<lambda>c. cor_id c = corridorId \<longrightarrow> derivedFrom ?path c)
               (corridors (storeAfter ?r))
          \<and> filter (\<lambda>c. cor_id c \<noteq> corridorId) (corridors (storeAfter ?r))
            = filter (\<lambda>c. cor_id c \<noteq> corridorId) (corridors st)
          \<and> nodes (storeAfter ?r) = nodes st
          \<and> floors (storeAfter ?r) = floors st"
      unfolding r
      using r1 updateCorridor_paths [of depth st corridorId ?path]
        updateCorridor_derived [of corridorId ?path depth st]
        updateCorridor_others [of corridorId depth st ?path]
        updateCorridor_fields(1,2) [of depth st corridorId "pathUpdate ?path"]
      by blast
  qed
  show ?thesis using a b c by blast
qed


theorem updateCorridorVertex_out_of_range_witness:
  "find (\<lambda>c. cor_id c = ''CS1'') (corridors (storeAfter twoNodesJoined))
     = Some (hd (corridors (storeAfter twoNodesJoined)))
   \<and> cor_path (hd (corridors (storeAfter twoNodesJoined)))
     = [planPointOn 0 0 0, planPointOn 10 0 0]
   \<and> updateCorridorVertex 4 (storeAfter twoNodesJoined) ''CS1'' 5 (planPoint 20 0) None
     = Threw TypeError (storeAfter twoNodesJoined)
   \<and> map cor_path (corridors (storeAfter
        (updateCorridorVertex 4 (storeAfter twoNodesJoined) ''CS1'' 2 (planPoint 20 0) None)))
     = [[planPointOn 0 0 0, planPointOn 10 0 0, planPointOn 20 0 0]]
   \<and> map cor_path (corridors (storeAfter
        (updateCorridorVertex 4 (storeAfter twoNodesJoined) ''CS1'' (- 1) (planPoint 20 0) None)))
     = [[planPointOn 0 0 0, planPointOn 10 0 0]]
   \<and> list_all (derivedFrom [planPointOn 0 0 0, planPointOn 10 0 0])
        (corridors (storeAfter
           (updateCorridorVertex 4 (storeAfter twoNodesJoined) ''CS1'' (- 1) (planPoint 20 0) None)))
   \<and> hasReturned
        (updateCorridorVertex 4 (storeAfter twoNodesJoined) ''CS1'' 4294967295 (planPoint 20 0) None)
   \<and> map cor_path (corridors (storeAfter
        (updateCorridorVertex 4 (storeAfter twoNodesJoined) ''CS1'' 4294967295 (planPoint 20 0)
           None)))
     = [[planPointOn 0 0 0, planPointOn 10 0 0]]"
proof -
  let ?s = "storeAfter twoNodesJoined"
  let ?p = "[planPointOn 0 0 0, planPointOn 10 0 0]"
  have h: "find (\<lambda>c. cor_id c = ''CS1'') (corridors ?s) = Some (hd (corridors ?s))"
    by code_simp
  have pth: "cor_path (hd (corridors ?s)) = ?p"
    by code_simp
  have v: "stampedVertex ?s (planPoint 20 0) None = planPointOn 20 0 0"
    by code_simp
  have ne: "corridors ?s = [hd (corridors ?s)]"
    by code_simp
  have i: "cor_id (hd (corridors ?s)) = ''CS1''"
    by code_simp
  have big: "hasReturned (updateCorridorVertex 4 ?s ''CS1'' 4294967295 (planPoint 20 0) None)"
    by code_simp
  note t = updateCorridorVertex_out_of_range [OF h, where depth = 4
      and newPosition = "planPoint 20 0" and newFloor = None]
  have a: "updateCorridorVertex 4 ?s ''CS1'' 5 (planPoint 20 0) None = Threw TypeError ?s"
  proof -
    have "int (length (cor_path (hd (corridors ?s)))) < 5 \<and> (5::int) < 4294967295"
      by (simp add: pth)
    with t [where vertexIndex = 5] show ?thesis by blast
  qed
  have b: "map cor_path (corridors (storeAfter
             (updateCorridorVertex 4 ?s ''CS1'' 2 (planPoint 20 0) None)))
           = map (\<lambda>c. if cor_id c = ''CS1''
                      then cor_path (hd (corridors ?s)) @ [stampedVertex ?s (planPoint 20 0) None]
                      else cor_path c) (corridors ?s)"
  proof -
    have "(2::int) = int (length (cor_path (hd (corridors ?s)))) \<and> (2::int) < 4294967295"
      by (simp add: pth)
    with t [where vertexIndex = 2] show ?thesis by blast
  qed
  have c: "map cor_path (corridors (storeAfter
             (updateCorridorVertex 4 ?s ''CS1'' (- 1) (planPoint 20 0) None)))
           = map (\<lambda>c. if cor_id c = ''CS1'' then cor_path (hd (corridors ?s)) else cor_path c)
               (corridors ?s)"
  proof -
    have "(- 1::int) < 0 \<or> 4294967295 \<le> (- 1::int)"
      by simp
    with t [where vertexIndex = "- 1"] show ?thesis by blast
  qed
  have d: "list_all (\<lambda>c. cor_id c = ''CS1'' \<longrightarrow> derivedFrom (cor_path (hd (corridors ?s))) c)
             (corridors (storeAfter
                (updateCorridorVertex 4 ?s ''CS1'' (- 1) (planPoint 20 0) None)))"
  proof -
    have "(- 1::int) < 0 \<or> 4294967295 \<le> (- 1::int)"
      by simp
    with t [where vertexIndex = "- 1"] show ?thesis by blast
  qed
  have e: "map cor_path (corridors (storeAfter
             (updateCorridorVertex 4 ?s ''CS1'' 4294967295 (planPoint 20 0) None)))
           = map (\<lambda>c. if cor_id c = ''CS1'' then cor_path (hd (corridors ?s)) else cor_path c)
               (corridors ?s)"
  proof -
    have "(4294967295::int) < 0 \<or> 4294967295 \<le> (4294967295::int)"
      by simp
    with t [where vertexIndex = 4294967295] show ?thesis by blast
  qed
  have b': "map cor_path (corridors (storeAfter
             (updateCorridorVertex 4 ?s ''CS1'' 2 (planPoint 20 0) None)))
           = [[planPointOn 0 0 0, planPointOn 10 0 0, planPointOn 20 0 0]]"
    by (subst b, subst ne) (simp add: i pth v)
  have c': "map cor_path (corridors (storeAfter
             (updateCorridorVertex 4 ?s ''CS1'' (- 1) (planPoint 20 0) None)))
           = [?p]"
    by (subst c, subst ne) (simp add: i pth)
  have e': "map cor_path (corridors (storeAfter
             (updateCorridorVertex 4 ?s ''CS1'' 4294967295 (planPoint 20 0) None)))
           = [?p]"
    by (subst e, subst ne) (simp add: i pth)
  have ids: "map cor_id (corridors (storeAfter
             (updateCorridorVertex 4 ?s ''CS1'' (- 1) (planPoint 20 0) None))) = [''CS1'']"
    by code_simp
  have d': "list_all (derivedFrom ?p)
             (corridors (storeAfter
                (updateCorridorVertex 4 ?s ''CS1'' (- 1) (planPoint 20 0) None)))"
  proof -
    from ids obtain k where k: "corridors (storeAfter
                (updateCorridorVertex 4 ?s ''CS1'' (- 1) (planPoint 20 0) None)) = [k]"
      and ki: "cor_id k = ''CS1''" by auto
    from d show ?thesis unfolding k by (simp add: ki pth)
  qed
  show ?thesis using h pth a b' c' d' big e' by blast
qed

section \<open>Hit testing\<close>

text \<open>
  Coordinates, distances and the tolerance are real numbers here; the square roots of
  the scenarios are exact.
\<close>

lemma sqrt_25: "sqrt 25 = 5"
  using real_sqrt_abs [of 5] by simp

lemma find_first_split:
  "find P xs = Some x \<Longrightarrow>
   \<exists>pre post. xs = pre @ x # post \<and> P x \<and> (\<forall>y \<in> set pre. \<not> P y)"
proof (induction xs)
  case Nil
  then show ?case by simp
next
  case (Cons a xs)
  show ?case
  proof (cases "P a")
    case True
    with Cons.prems have "a = x" by simp
    with True have "a # xs = [] @ x # xs \<and> P x \<and> (\<forall>y \<in> set []. \<not> P y)" by simp
    then show ?thesis by blast
  next
    case False
    with Cons.prems have "find P xs = Some x" by simp
    from Cons.IH [OF this] obtain pre post
      where "xs = pre @ x # post" "P x" "\<forall>y \<in> set pre. \<not> P y" by blast
    with False have "a # xs = (a # pre) @ x # post \<and> P x \<and> (\<forall>y \<in> set (a # pre). \<not> P y)"
      by simp
    then show ?thesis by blast
  qed
qed

lemma find_None_all: "find P xs = None \<Longrightarrow> \<forall>y \<in> set xs. \<not> P y"
  by (simp add: find_None_iff)

lemma near_nodes: "nodes twoNodesNearOrigin = [nodeA, nodeB]"
  by code_simp

lemma near_floor: "currentFloorIndex (canvasState twoNodesNearOrigin) = 0"
  by code_simp

lemma near_visible: "getVisibleNodes twoNodesNearOrigin = [nodeA, nodeB]"
  by (simp add: getVisibleNodes_def near_nodes near_floor nodeA_def nodeB_def pointNode_def)

lemma distA: "centroidDistance (planPoint 0 0) nodeA = Some 5"
  by (simp add: centroidDistance_def getNodeCentroid_def nodeA_def pointNode_def
      planPointOn_def planPoint_def sqrt_25)

lemma distB: "centroidDistance (planPoint 0 0) nodeB = Some 1"
  by (simp add: centroidDistance_def getNodeCentroid_def nodeB_def pointNode_def
      planPointOn_def planPoint_def)

text \<open>
  C4, as stated, fails where it says that the nearest qualifying element is returned.
  Both A (at distance 5) and B (at distance 1) are visible and within the default
  tolerance 20 of the origin; the answer is A, which comes first in the node collection.
\<close>

theorem getElementByPosition_not_nearest_counterexample:
  "getVisibleNodes twoNodesNearOrigin = [nodeA, nodeB]
   \<and> centroidDistance (planPoint 0 0) nodeA = Some 5
   \<and> centroidDistance (planPoint 0 0) nodeB = Some 1
   \<and> getElementByPosition twoNodesNearOrigin (planPoint 0 0) None = Some (''A'', NodeItem)"
proof -
  have hit: "nodeWithin (planPoint 0 0) 20 nodeA"
    by (simp add: nodeWithin_def distA)
  have ident: "node_id nodeA = ''A''"
    by (simp add: nodeA_def pointNode_def)
  have "getElementByPosition twoNodesNearOrigin (planPoint 0 0) None = Some (''A'', NodeItem)"
    by (simp add: getElementByPosition_def near_visible orElse_def hit ident)
  then show ?thesis
    by (simp add: near_visible distA distB)
qed


text \<open>
  C4, amended. The answer is the first qualifying element in collection order: the first
  visible node whose centroid is within the tolerance, if there is one (so a node wins
  over every corridor); otherwise the first visible corridor with a segment of non-zero
  length on the current floor within the tolerance; otherwise none.
\<close>

theorem getElementByPosition_first_hit:
  fixes st :: "('np, 'cp) store"
  defines "cf \<equiv> currentFloorIndex (canvasState st)"
  shows "(case getElementByPosition st position tol of
      Some (ident, NodeItem) \<Rightarrow>
        (\<exists>pre node post. getVisibleNodes st = pre @ node # post \<and> node_id node = ident
           \<and> nodeWithin position (orElse tol 20) node
           \<and> (\<forall>m \<in> set pre. \<not> nodeWithin position (orElse tol 20) m))
    | Some (ident, CorridorItem) \<Rightarrow>
        (\<forall>m \<in> set (getVisibleNodes st). \<not> nodeWithin position (orElse tol 20) m)
        \<and> (\<exists>pre corridor post. getVisibleCorridors st = pre @ corridor # post
              \<and> cor_id corridor = ident
              \<and> corridorWithin cf position (orElse tol 20) corridor
              \<and> (\<forall>m \<in> set pre. \<not> corridorWithin cf position (orElse tol 20) m))
    | None \<Rightarrow>
        (\<forall>m \<in> set (getVisibleNodes st). \<not> nodeWithin position (orElse tol 20) m)
        \<and> (\<forall>m \<in> set (getVisibleCorridors st).
              \<not> corridorWithin cf position (orElse tol 20) m))
    \<and> ((\<exists>m \<in> set (getVisibleNodes st). nodeWithin position (orElse tol 20) m) \<longrightarrow>
          (\<exists>ident. getElementByPosition st position tol = Some (ident, NodeItem)))"
proof -
  let ?t = "orElse tol 20"
  have first: "case getElementByPosition st position tol of
      Some (ident, NodeItem) \<Rightarrow>
        (\<exists>pre node post. getVisibleNodes st = pre @ node # post \<and> node_id node = ident
           \<and> nodeWithin position ?t node
           \<and> (\<forall>m \<in> set pre. \<not> nodeWithin position ?t m))
    | Some (ident, CorridorItem) \<Rightarrow>
        (\<forall>m \<in> set (getVisibleNodes st). \<not> nodeWithin position ?t m)
        \<and> (\<exists>pre corridor post. getVisibleCorridors st = pre @ corridor # post
              \<and> cor_id corridor = ident
              \<and> corridorWithin cf position ?t corridor
              \<and> (\<forall>m \<in> set pre. \<not> corridorWithin cf position ?t m))
    | None \<Rightarrow>
        (\<forall>m \<in> set (getVisibleNodes st). \<not> nodeWithin position ?t m)
        \<and> (\<forall>m \<in> set (getVisibleCorridors st). \<not> corridorWithin cf position ?t m)"
  proof (cases "find (nodeWithin position ?t) (getVisibleNodes st)")
    case (Some node)
    then have r: "getElementByPosition st position tol = Some (node_id node, NodeItem)"
      by (simp add: getElementByPosition_def Let_def)
    from find_first_split [OF Some] show ?thesis
      unfolding r by auto
  next
    case None
    note nn = find_None_all [OF None]
    show ?thesis
    proof (cases "find (corridorWithin cf position ?t) (getVisibleCorridors st)")
      case (Some corridor)
      then have r: "getElementByPosition st position tol = Some (cor_id corridor, CorridorItem)"
        using None by (simp add: getElementByPosition_def Let_def cf_def)
      from find_first_split [OF Some] nn show ?thesis
        unfolding r by auto
    next
      case n2: None
      then have r: "getElementByPosition st position tol = None"
        using None by (simp add: getElementByPosition_def Let_def cf_def)
      from find_None_all [OF n2] nn show ?thesis
        unfolding r by auto
    qed
  qed
  have priority: "(\<exists>m \<in> set (getVisibleNodes st). nodeWithin position ?t m) \<longrightarrow>
          (\<exists>ident. getElementByPosition st position tol = Some (ident, NodeItem))"
  proof
    assume "\<exists>m \<in> set (getVisibleNodes st). nodeWithin position ?t m"
    then have "find (nodeWithin position ?t) (getVisibleNodes st) \<noteq> None"
      by (auto simp: find_None_iff)
    then obtain node where "find (nodeWithin position ?t) (getVisibleNodes st) = Some node"
      by auto
    then have "getElementByPosition st position tol = Some (node_id node, NodeItem)"
      by (simp add: getElementByPosition_def Let_def)
    then show "\<exists>ident. getElementByPosition st position tol = Some (ident, NodeItem)" ..
  qed
  from first priority show ?thesis ..
qed

lemma sqrt_less_nonneg: "0 \<le> t \<Longrightarrow> (sqrt x < t) = (x < t\<^sup>2)"
  using real_sqrt_less_iff [of x "t\<^sup>2"] by simp

lemma joined_nodes: "nodes (storeAfter twoNodesJoined) = [nodeN1, nodeN2]"
  by code_simp

lemma joined_floor: "currentFloorIndex (canvasState (storeAfter twoNodesJoined)) = 0"
  by code_simp

lemma joined_corridors:
  "map (\<lambda>c. (cor_id c, cor_segments c)) (corridors (storeAfter twoNodesJoined))
     = [(''CS1'', [mkSegment (planPointOn 0 0 0) (planPointOn 10 0 0)])]"
  by code_simp

lemma joined_visible_nodes: "getVisibleNodes (storeAfter twoNodesJoined) = [nodeN1, nodeN2]"
  by (simp add: getVisibleNodes_def joined_nodes joined_floor nodeN1_def nodeN2_def pointNode_def)

lemma missN1: "\<not> nodeWithin (planPoint 5 1) 2 nodeN1"
  by (simp add: nodeWithin_def centroidDistance_def getNodeCentroid_def nodeN1_def pointNode_def
      planPointOn_def planPoint_def sqrt_less_nonneg)

lemma missN2: "\<not> nodeWithin (planPoint 5 1) 2 nodeN2"
  by (simp add: nodeWithin_def centroidDistance_def getNodeCentroid_def nodeN2_def pointNode_def
      planPointOn_def planPoint_def sqrt_less_nonneg)

lemma hitSegment:
  "segmentWithin (planPoint 5 1) 2 (mkSegment (planPointOn 0 0 0) (planPointOn 10 0 0))"
  by (simp add: segmentWithin_def segmentDistance_def mkSegment_def planPointOn_def
      planPoint_def Let_def)

theorem getElementByPosition_first_hit_witness:
  "getElementByPosition (storeAfter twoNodesJoined) (planPoint 5 1) (Some 2)
     = Some (''CS1'', CorridorItem)
   \<and> list_all (\<lambda>m. \<not> nodeWithin (planPoint 5 1) 2 m)
        (getVisibleNodes (storeAfter twoNodesJoined))
   \<and> (\<exists>pre corridor post.
         getVisibleCorridors (storeAfter twoNodesJoined) = pre @ corridor # post
         \<and> cor_id corridor = ''CS1''
         \<and> corridorWithin 0 (planPoint 5 1) 2 corridor
         \<and> (\<forall>m \<in> set pre. \<not> corridorWithin 0 (planPoint 5 1) 2 m))"
proof -
  let ?s = "storeAfter twoNodesJoined"
  obtain c where cs: "corridors ?s = [c]" and ci: "cor_id c = ''CS1''"
    and cg: "cor_segments c = [mkSegment (planPointOn 0 0 0) (planPointOn 10 0 0)]"
    using joined_corridors by auto
  have seg: "getSegmentsForFloor (cor_segments c) 0
             = [mkSegment (planPointOn 0 0 0) (planPointOn 10 0 0)]"
    by (simp add: cg getSegmentsForFloor_def mkSegment_def floorOf_def planPointOn_def)
  have vis: "getVisibleCorridors ?s = [c]"
    by (simp add: getVisibleCorridors_def cs joined_floor seg)
  have hit: "corridorWithin 0 (planPoint 5 1) 2 c"
    by (simp add: corridorWithin_def seg hitSegment)
  have r: "getElementByPosition ?s (planPoint 5 1) (Some 2) = Some (''CS1'', CorridorItem)"
    by (simp add: getElementByPosition_def orElse_def joined_visible_nodes missN1 missN2
        vis joined_floor hit ci)
  from getElementByPosition_first_hit [of ?s "planPoint 5 1" "Some 2"] r
  show ?thesis
    by (simp add: orElse_def joined_floor list_all_iff)
qed

section \<open>Regenerating the journey edges\<close>

text \<open>
  C6, as stated, fails where it says that a second call always gives the same edges.
  The path sequence is A, B-C, A-B, C and no edge of the id A-B-C is stored. The first
  call creates two edges of the same id A-B-C, one from A to B-C and one from A-B to C,
  each with the default design intent of its own start (\<open>where\<close> A and \<open>where\<close> A-B).
  The second call finds the first of them for both pairs and carries its design intent
  over to the edge from A-B to C, whose \<open>where\<close> becomes A.
\<close>

theorem regenerateEdges_twice_counterexample:
  "map item_id (pathSequence dashedIdsEdgeDeleted) = [''A'', ''B-C'', ''A-B'', ''C'']
   \<and> map (\<lambda>e. (edge_id e, edge_from e, di_where (edge_design_intent e)))
         (edges (regenerateEdges dashedIdsEdgeDeleted))
       = [(''A-B-C'', ''A'', ''A''), (''B-C-A-B'', ''B-C'', ''B-C''), (''A-B-C'', ''A-B'', ''A-B'')]
   \<and> map (\<lambda>e. (edge_id e, edge_from e, di_where (edge_design_intent e)))
         (edges (regenerateEdges (regenerateEdges dashedIdsEdgeDeleted)))
       = [(''A-B-C'', ''A'', ''A''), (''B-C-A-B'', ''B-C'', ''B-C''), (''A-B-C'', ''A-B'', ''A'')]
   \<and> pathSequence (regenerateEdges dashedIdsEdgeDeleted) = pathSequence dashedIdsEdgeDeleted
   \<and> edges (regenerateEdges (regenerateEdges dashedIdsEdgeDeleted))
       \<noteq> edges (regenerateEdges dashedIdsEdgeDeleted)"
  by code_simp

lemma edgesBetween_length: "length (edgesBetween old items) = length items - 1"
  by (induction old items rule: edgesBetween.induct) simp_all

lemma edgesBetween_nth:
  "i + 1 < length items \<Longrightarrow>
   edgesBetween old items ! i = newEdge old (items ! i) (items ! (i + 1))"
proof (induction old items arbitrary: i rule: edgesBetween.induct)
  case (1 old current "next" rest)
  then show ?case by (cases i) simp_all
qed simp_all

lemma newEdge_fields:
  "edge_id (newEdge old current nxt) = item_id current @ ''-'' @ item_id nxt"
  "edge_from (newEdge old current nxt) = item_id current"
  "edge_to (newEdge old current nxt) = item_id nxt"
  by (simp_all add: newEdge_def edgeIdOf_def Let_def)

lemma newEdge_metadata:
  "case find (\<lambda>e. edge_id e = edge_id (newEdge old current nxt)) old of
     Some e \<Rightarrow>
       edge_decision_properties (newEdge old current nxt) = edge_decision_properties e
       \<and> edge_design_intent (newEdge old current nxt) = edge_design_intent e
       \<and> edge_design_importance (newEdge old current nxt) = edge_design_importance e
   | None \<Rightarrow>
       edge_decision_properties (newEdge old current nxt) = defaultDecisionProperties
       \<and> edge_design_intent (newEdge old current nxt) = defaultDesignIntent current
       \<and> edge_design_importance (newEdge old current nxt) = ImpNeutral"
  by (simp add: newEdge_def edgeIdOf_def Let_def split: option.split)

lemma find_distinct_key:
  "distinct (map f xs) \<Longrightarrow> x \<in> set xs \<Longrightarrow> find (\<lambda>y. f y = f x) xs = Some x"
  by (induction xs) auto

lemma newEdge_again:
  assumes "distinct (map edge_id new)" and "newEdge old current nxt \<in> set new"
  shows "newEdge new current nxt = newEdge old current nxt"
proof -
  have "find (\<lambda>e. edge_id e = edge_id (newEdge old current nxt)) new
          = Some (newEdge old current nxt)"
    using assms by (rule find_distinct_key)
  then have "find (\<lambda>e. edge_id e = edgeIdOf current nxt) new = Some (newEdge old current nxt)"
    by (simp add: newEdge_fields edgeIdOf_def)
  then show ?thesis
    by (simp add: newEdge_def Let_def)
qed

lemma edgesBetween_again:
  "distinct (map edge_id new) \<Longrightarrow> set (edgesBetween old items) \<subseteq> set new \<Longrightarrow>
   edgesBetween new items = edgesBetween old items"
  by (induction old items rule: edgesBetween.induct) (simp_all add: newEdge_again)

lemma regenerateEdges_idem:
  assumes "distinct (map edge_id (edges (regenerateEdges st)))"
  shows "regenerateEdges (regenerateEdges st) = regenerateEdges st"
proof -
  let ?items = "sort_key item_order (pathSequence st)"
  have "edgesBetween (edgesBetween (edges st) ?items) ?items = edgesBetween (edges st) ?items"
    using assms by (intro edgesBetween_again) (simp_all add: regenerateEdges_def)
  then show ?thesis by (simp add: regenerateEdges_def)
qed

text \<open>
  C6, amended. The new edges are computed from the path sequence, sorted stably by
  order, and the previous edges alone: one edge per consecutive pair, with the id
  \<open>current-next\<close>, from \<open>current\<close> to \<open>next\<close>; its design importance, decision
  properties and design intent are those of the first previous edge of that id when
  there is one, and the defaults otherwise. The path sequence is left as it is. When
  the ids of the new edges are pairwise different, a second call gives the same store.
\<close>

theorem regenerateEdges_pairs:
  fixes st :: "('np, 'cp) store"
  defines "items \<equiv> sort_key item_order (pathSequence st)"
  defines "new \<equiv> edges (regenerateEdges st)"
  shows "sorted (map item_order items) \<and> mset items = mset (pathSequence st)
    \<and> length new = length items - 1
    \<and> (\<forall>i. i + 1 < length items \<longrightarrow>
          edge_id (new ! i) = item_id (items ! i) @ ''-'' @ item_id (items ! (i + 1))
          \<and> edge_from (new ! i) = item_id (items ! i)
          \<and> edge_to (new ! i) = item_id (items ! (i + 1))
          \<and> (case find (\<lambda>e. edge_id e = edge_id (new ! i)) (edges st) of
                Some e \<Rightarrow>
                  edge_decision_properties (new ! i) = edge_decision_properties e
                  \<and> edge_design_intent (new ! i) = edge_design_intent e
                  \<and> edge_design_importance (new ! i) = edge_design_importance e
              | None \<Rightarrow>
                  edge_decision_properties (new ! i) = defaultDecisionProperties
                  \<and> edge_design_intent (new ! i) = defaultDesignIntent (items ! i)
                  \<and> edge_design_importance (new ! i) = ImpNeutral))
    \<and> pathSequence (regenerateEdges st) = pathSequence st
    \<and> (distinct (map edge_id new) \<longrightarrow>
          regenerateEdges (regenerateEdges st) = regenerateEdges st)"
proof -
  have n: "new = edgesBetween (edges st) items"
    by (simp add: new_def items_def regenerateEdges_def)
  have a: "sorted (map item_order items) \<and> mset items = mset (pathSequence st)"
    by (simp add: items_def)
  have b: "length new = length items - 1"
    by (simp add: n edgesBetween_length)
  have c: "\<forall>i. i + 1 < length items \<longrightarrow>
          edge_id (new ! i) = item_id (items ! i) @ ''-'' @ item_id (items ! (i + 1))
          \<and> edge_from (new ! i) = item_id (items ! i)
          \<and> edge_to (new ! i) = item_id (items ! (i + 1))
          \<and> (case find (\<lambda>e. edge_id e = edge_id (new ! i)) (edges st) of
                Some e \<Rightarrow>
                  edge_decision_properties (new ! i) = edge_decision_properties e
                  \<and> edge_design_intent (new ! i) = edge_design_intent e
                  \<and> edge_design_importance (new ! i) = edge_design_importance e
              | None \<Rightarrow>
                  edge_decision_properties (new ! i) = defaultDecisionProperties
                  \<and> edge_design_intent (new ! i) = defaultDesignIntent (items ! i)
                  \<and> edge_design_importance (new ! i) = ImpNeutral)"
  proof (intro allI impI)
    fix i assume i: "i + 1 < length items"
    have e: "new ! i = newEdge (edges st) (items ! i) (items ! (i + 1))"
      using i by (simp add: n edgesBetween_nth)
    show "edge_id (new ! i) = item_id (items ! i) @ ''-'' @ item_id (items ! (i + 1))
          \<and> edge_from (new ! i) = item_id (items ! i)
          \<and> edge_to (new ! i) = item_id (items ! (i + 1))
          \<and> (case find (\<lambda>e. edge_id e = edge_id (new ! i)) (edges st) of
                Some e \<Rightarrow>
                  edge_decision_properties (new ! i) = edge_decision_properties e
                  \<and> edge_design_intent (new ! i) = edge_design_intent e
                  \<and> edge_design_importance (new ! i) = edge_design_importance e
              | None \<Rightarrow>
                  edge_decision_properties (new ! i) = defaultDecisionProperties
                  \<and> edge_design_intent (new ! i) = defaultDesignIntent (items ! i)
                  \<and> edge_design_importance (new ! i) = ImpNeutral)"
      unfolding e using newEdge_metadata [of "edges st" "items ! i" "items ! (i + 1)"]
      by (simp only: newEdge_fields)
  qed
  have d: "pathSequence (regenerateEdges st) = pathSequence st"
    by (simp add: regenerateEdges_def)
  have f: "distinct (map edge_id new) \<longrightarrow>
          regenerateEdges (regenerateEdges st) = regenerateEdges st"
    using regenerateEdges_idem by (auto simp: new_def)
  show ?thesis using a b c d f by blast
qed


theorem regenerateEdges_pairs_witness:
  "map edge_id (edges (regenerateEdges (storeAfter twoNodesJoined))) = [''N1-CS1'', ''CS1-N2'']
   \<and> map (\<lambda>e. (edge_from e, edge_to e)) (edges (regenerateEdges (storeAfter twoNodesJoined)))
       = [(''N1'', ''CS1''), (''CS1'', ''N2'')]
   \<and> distinct (map edge_id (edges (regenerateEdges (storeAfter twoNodesJoined))))
   \<and> regenerateEdges (regenerateEdges (storeAfter twoNodesJoined))
       = regenerateEdges (storeAfter twoNodesJoined)"
proof -
  let ?s = "storeAfter twoNodesJoined"
  have ids: "map edge_id (edges (regenerateEdges ?s)) = [''N1-CS1'', ''CS1-N2'']"
    by code_simp
  have ends: "map (\<lambda>e. (edge_from e, edge_to e)) (edges (regenerateEdges ?s))
       = [(''N1'', ''CS1''), (''CS1'', ''N2'')]"
    by code_simp
  have d: "distinct (map edge_id (edges (regenerateEdges ?s)))"
    by (simp add: ids)
  from regenerateEdges_pairs [of ?s] d
  have "regenerateEdges (regenerateEdges ?s) = regenerateEdges ?s"
    by blast
  with ids ends d show ?thesis by blast
qed

section \<open>The sequencer keeps the items of the sequence\<close>

text \<open>
  C10, as stated for every store, fails on a sequence with repeated ids. The sequence
  handed to the sequencer holds the ids A, C, C, A; A is the id of a node. The walk
  appends A once and skips both items of that id afterwards; the two items of the id C
  are never processed and are both appended. The output A, C, C has lost an item and
  holds the id C twice.
\<close>

theorem reorderPathSequence_duplicates_counterexample:
  "map item_id (pathSequence duplicatedIds) = [''A'', ''C'', ''C'', ''A'']
   \<and> hasReturned (reorderPathSequence 2 duplicatedIds)
   \<and> map item_id (pathSequence (storeAfter (reorderPathSequence 2 duplicatedIds)))
       = [''A'', ''C'', ''C'']"
  by code_simp

lemma addItemToSequence_inv:
  assumes "walkInv ps ord w" and "addItemToSequence ps x ord w = (ord', w')"
  shows "walkInv ps ord' w'"
    and "processedItems w \<subseteq> processedItems w'"
    and "x \<in> set (map item_id ps) \<Longrightarrow> x \<in> processedItems w'"
proof -
  show "walkInv ps ord' w'"
  proof (cases "x \<in> processedItems w")
    case True
    with assms show ?thesis by (simp add: addItemToSequence_def)
  next
    case False
    show ?thesis
    proof (cases "find (\<lambda>p. item_id p = x) ps")
      case None
      with False assms show ?thesis by (simp add: addItemToSequence_def)
    next
      case (Some item)
      then have it: "item \<in> set ps" "item_id item = x"
        by (auto simp: find_Some_iff)
      from False Some assms(2)
      have w': "w' = w\<lparr> processedItems := insert x (processedItems w),
                         reorderedSequence := reorderedSequence w @ [item\<lparr> item_order := ord \<rparr>] \<rparr>"
        and o': "ord' = ord + 1"
        by (simp_all add: addItemToSequence_def)
      from assms(1) False it show ?thesis
        unfolding walkInv_def w' o' by (auto simp: fromSequence_def)
    qed
  qed
  show "processedItems w \<subseteq> processedItems w'"
    using assms(2) by (auto simp: addItemToSequence_def split: if_splits option.splits)
  show "x \<in> set (map item_id ps) \<Longrightarrow> x \<in> processedItems w'"
    using assms(2)
    by (auto simp: addItemToSequence_def find_None_iff split: if_splits option.splits)
qed

lemma unprocessed_mono:
  "processedItems w \<subseteq> processedItems w' \<Longrightarrow> unprocessed ps w' \<le> unprocessed ps w"
  unfolding unprocessed_def by (intro card_mono) auto

lemma unprocessed_less:
  assumes "processedItems w \<subseteq> processedItems w'"
    and "x \<in> set (map item_id ps)" and "x \<notin> processedItems w" and "x \<in> processedItems w'"
  shows "unprocessed ps w' < unprocessed ps w"
  unfolding unprocessed_def using assms by (intro psubset_card_mono) auto

lemma processOutgoing_ok:
  assumes ok: "pathOk d ps cs" and H: "targetsSequenced ps cs"
  shows "set out \<subseteq> set cs \<Longrightarrow> walkInv ps ord w \<Longrightarrow> unprocessed ps w \<le> d \<Longrightarrow>
         \<exists>ord' w'. processOutgoing d ps cs out ord w = Some (ord', w')
            \<and> walkInv ps ord' w' \<and> processedItems w \<subseteq> processedItems w'"
proof (induction out arbitrary: ord w)
  case Nil
  then show ?case by simp
next
  case (Cons c rest)
  obtain ord1 w1 where a: "addItemToSequence ps (cor_id c) ord w = (ord1, w1)"
    by (cases "addItemToSequence ps (cor_id c) ord w")
  note i1 = addItemToSequence_inv(1,2) [OF Cons.prems(2) a]
  have u1: "unprocessed ps w1 \<le> d"
    using unprocessed_mono [OF i1(2), of ps] Cons.prems(3) by simp
  have sub: "set rest \<subseteq> set cs" using Cons.prems(1) by simp
  have cin: "c \<in> set cs" using Cons.prems(1) by simp
  show ?case
  proof (cases "\<exists>t. cor_to c = Some t \<and> t \<noteq> [] \<and> t \<notin> processedItems w1")
    case True
    then obtain t where t: "cor_to c = Some t" "t \<noteq> []" "t \<notin> processedItems w1" by blast
    have tin: "t \<in> set (map item_id ps)"
      using H cin t(1,2) by (auto simp: targetsSequenced_def list_all_iff)
    from ok i1(1) tin t(3) u1
    obtain ord2 w2 where p: "processPath d ps cs t ord1 w1 = Some (ord2, w2)"
      and i2: "walkInv ps ord2 w2" "processedItems w1 \<subseteq> processedItems w2"
      unfolding pathOk_def by blast
    have u2: "unprocessed ps w2 \<le> d"
      using unprocessed_mono [OF i2(2), of ps] u1 by simp
    from Cons.IH [OF sub i2(1) u2]
    obtain ord3 w3 where r: "processOutgoing d ps cs rest ord2 w2 = Some (ord3, w3)"
      and i3: "walkInv ps ord3 w3" "processedItems w2 \<subseteq> processedItems w3" by blast
    have "processOutgoing d ps cs (c # rest) ord w = Some (ord3, w3)"
      using a t p r by simp
    with i3 i2(2) i1(2) show ?thesis by blast
  next
    case False
    from Cons.IH [OF sub i1(1) u1]
    obtain ord3 w3 where r: "processOutgoing d ps cs rest ord1 w1 = Some (ord3, w3)"
      and i3: "walkInv ps ord3 w3" "processedItems w1 \<subseteq> processedItems w3" by blast
    have "processOutgoing d ps cs (c # rest) ord w = Some (ord3, w3)"
      using a False r by (cases "cor_to c") auto
    with i3 i1(2) show ?thesis by blast
  qed
qed

lemma processPath_ok:
  assumes H: "targetsSequenced ps cs"
  shows "pathOk d ps cs"
proof (induction d)
  case 0
  show ?case
    unfolding pathOk_def
  proof (intro allI impI)
    fix nodeId ord w
    assume "walkInv ps ord w"
      and c: "unprocessed ps w < 0
          \<or> (nodeId \<in> set (map item_id ps) \<and> nodeId \<notin> processedItems w \<and> unprocessed ps w \<le> 0)"
    then have "nodeId \<in> set (map item_id ps) - processedItems w"
      and "card (set (map item_id ps) - processedItems w) = 0"
      by (auto simp: unprocessed_def)
    then have False by auto
    then show "\<exists>ord' w'. processPath 0 ps cs nodeId ord w = Some (ord', w')
            \<and> walkInv ps ord' w' \<and> processedItems w \<subseteq> processedItems w'" ..
  qed
next
  case (Suc d)
  show ?case
    unfolding pathOk_def
  proof (intro allI impI)
    fix nodeId ord w
    assume inv: "walkInv ps ord w"
      and c: "unprocessed ps w < Suc d
          \<or> (nodeId \<in> set (map item_id ps) \<and> nodeId \<notin> processedItems w
              \<and> unprocessed ps w \<le> Suc d)"
    obtain ord1 w1 where a: "addItemToSequence ps nodeId ord w = (ord1, w1)"
      by (cases "addItemToSequence ps nodeId ord w")
    note i1 = addItemToSequence_inv [OF inv a]
    have u1: "unprocessed ps w1 \<le> d"
    proof (cases "unprocessed ps w < Suc d")
      case True
      with unprocessed_mono [OF i1(2), of ps] show ?thesis by simp
    next
      case False
      with c have n: "nodeId \<in> set (map item_id ps)" "nodeId \<notin> processedItems w"
        "unprocessed ps w \<le> Suc d" by auto
      from unprocessed_less [OF i1(2) n(1) n(2) i1(3) [OF n(1)]] n(3)
      show ?thesis by simp
    qed
    have "set (filter (\<lambda>c. cor_from c = Some nodeId) cs) \<subseteq> set cs" by auto
    from processOutgoing_ok [OF Suc.IH H this i1(1) u1]
    obtain ord' w' where
      r: "processOutgoing d ps cs (filter (\<lambda>c. cor_from c = Some nodeId) cs) ord1 w1
            = Some (ord', w')"
      and i: "walkInv ps ord' w'" "processedItems w1 \<subseteq> processedItems w'" by blast
    have "processPath (Suc d) ps cs nodeId ord w = Some (ord', w')"
      using a r by simp
    with i i1(2)
    show "\<exists>ord' w'. processPath (Suc d) ps cs nodeId ord w = Some (ord', w')
            \<and> walkInv ps ord' w' \<and> processedItems w \<subseteq> processedItems w'" by blast
  qed
qed

lemma processStartNodes_ok:
  assumes H: "targetsSequenced ps cs"
  shows "walkInv ps ord w \<Longrightarrow> unprocessed ps w < d \<Longrightarrow>
         \<exists>ord' w'. processStartNodes d ps cs starts ord w = Some (ord', w')
            \<and> walkInv ps ord' w'"
proof (induction starts arbitrary: ord w)
  case Nil
  then show ?case by simp
next
  case (Cons s rest)
  show ?case
  proof (cases "node_id s \<in> processedItems w")
    case True
    with Cons.IH [OF Cons.prems] show ?thesis by simp
  next
    case False
    from processPath_ok [OF H, of d] Cons.prems
    obtain ord1 w1 where p: "processPath d ps cs (node_id s) ord w = Some (ord1, w1)"
      and i: "walkInv ps ord1 w1" "processedItems w \<subseteq> processedItems w1"
      unfolding pathOk_def by blast
    have "unprocessed ps w1 < d"
      using unprocessed_mono [OF i(2), of ps] Cons.prems(2) by simp
    from Cons.IH [OF i(1) this] False p show ?thesis by simp
  qed
qed


lemma addRemaining_ids:
  "map item_id (addRemaining S items ord acc)
     = map item_id acc @ filter (\<lambda>x. x \<notin> S) (map item_id items)"
  by (induction items arbitrary: ord acc) simp_all

lemma addRemaining_orders:
  "map item_order acc = map int [0 ..< length acc] \<Longrightarrow>
   map item_order (addRemaining S items (int (length acc)) acc)
     = map int [0 ..< length (addRemaining S items (int (length acc)) acc)]"
proof (induction items arbitrary: acc)
  case Nil
  then show ?case by simp
next
  case (Cons a items)
  show ?case
  proof (cases "item_id a \<in> S")
    case True
    with Cons.IH [OF Cons.prems] show ?thesis by simp
  next
    case False
    let ?acc = "acc @ [a\<lparr> item_order := int (length acc) \<rparr>]"
    have "map item_order ?acc = map int [0 ..< length ?acc]"
      using Cons.prems by simp
    from Cons.IH [OF this] have
      "map item_order (addRemaining S items (int (length acc) + 1) ?acc)
         = map int [0 ..< length (addRemaining S items (int (length acc) + 1) ?acc)]"
      by (simp add: add.commute)
    with False show ?thesis by simp
  qed
qed

lemma fromSequence_member: "a \<in> set ps \<Longrightarrow> fromSequence ps (a\<lparr> item_order := k \<rparr>)"
  by (auto simp: fromSequence_def)

lemma addRemaining_from:
  "list_all (fromSequence ps) acc \<Longrightarrow> set items \<subseteq> set ps \<Longrightarrow>
   list_all (fromSequence ps) (addRemaining S items ord acc)"
proof (induction items arbitrary: ord acc)
  case Nil
  then show ?case by simp
next
  case (Cons a items)
  have sub: "set items \<subseteq> set ps" and a: "a \<in> set ps" using Cons.prems(2) by simp_all
  show ?case
  proof (cases "item_id a \<in> S")
    case True
    with Cons.IH [OF Cons.prems(1) sub] show ?thesis by simp
  next
    case False
    have "list_all (fromSequence ps) (acc @ [a\<lparr> item_order := ord \<rparr>])"
      using Cons.prems(1) fromSequence_member [OF a] by simp
    from Cons.IH [OF this sub] False show ?thesis by simp
  qed
qed

lemma walkInv_emptyWalk: "walkInv ps 0 emptyWalk"
  by (simp add: walkInv_def emptyWalk_def)

lemma unprocessed_emptyWalk: "unprocessed ps emptyWalk \<le> length ps"
proof -
  have "card (set (map item_id ps)) \<le> length (map item_id ps)" by (rule card_length)
  then show ?thesis by (simp add: unprocessed_def emptyWalk_def)
qed

text \<open>
  C10, amended. When the ids of the path sequence are pairwise different, every
  non-empty \<open>to\<close> of a corridor is the id of an item of the sequence, and the call
  depth exceeds the length of the sequence, the sequencer returns; the ids of its output
  are those of its input, each once; the orders are 0, 1, 2, ... in the order of
  appension; and every output item is an input item up to its order. Cycles between
  corridors and ids of the sequence that belong to no node or corridor are allowed.
\<close>

theorem reorderPathSequence_permutes:
  fixes st :: "('np, 'cp) store"
  assumes d: "distinct (map item_id (pathSequence st))"
    and H: "targetsSequenced (pathSequence st) (corridors st)"
    and len: "length (pathSequence st) < depth"
  shows "hasReturned (reorderPathSequence depth st)
    \<and> mset (map item_id (pathSequence (storeAfter (reorderPathSequence depth st))))
        = mset (map item_id (pathSequence st))
    \<and> map item_order (pathSequence (storeAfter (reorderPathSequence depth st)))
        = map int [0 ..< length (pathSequence st)]
    \<and> list_all (fromSequence (pathSequence st))
        (pathSequence (storeAfter (reorderPathSequence depth st)))"
proof -
  let ?ps = "pathSequence st"
  have u: "unprocessed ?ps emptyWalk < depth"
    using unprocessed_emptyWalk [of ?ps] len by simp
  from processStartNodes_ok [OF H walkInv_emptyWalk u, of "startNodes st"]
  obtain ord w where
    p: "processStartNodes depth ?ps (corridors st) (startNodes st) 0 emptyWalk = Some (ord, w)"
    and inv: "walkInv ?ps ord w" by blast
  let ?out = "addRemaining (processedItems w) ?ps ord (reorderedSequence w)"
  have r: "reorderPathSequence depth st = Returned (regenerateEdges (st\<lparr> pathSequence := ?out \<rparr>))"
    using p by (simp add: reorderPathSequence_def)
  have out: "pathSequence (storeAfter (reorderPathSequence depth st)) = ?out"
    by (simp add: r regenerateEdges_def)
  have ids: "map item_id ?out
      = map item_id (reorderedSequence w)
        @ filter (\<lambda>x. x \<notin> processedItems w) (map item_id ?ps)"
    by (rule addRemaining_ids)
  from inv have pr: "processedItems w = set (map item_id (reorderedSequence w))"
    and ds: "distinct (map item_id (reorderedSequence w))"
    and sub: "processedItems w \<subseteq> set (map item_id ?ps)"
    and ords: "map item_order (reorderedSequence w) = map int [0 ..< length (reorderedSequence w)]"
    and o: "ord = int (length (reorderedSequence w))"
    and fr: "list_all (fromSequence ?ps) (reorderedSequence w)"
    by (auto simp: walkInv_def)
  have dist: "distinct (map item_id ?out)"
    unfolding ids using ds d pr by auto
  have seteq: "set (map item_id ?out) = set (map item_id ?ps)"
    unfolding ids using pr sub by auto
  have ms: "mset (map item_id ?out) = mset (map item_id ?ps)"
    using set_eq_iff_mset_eq_distinct [OF dist d] seteq by blast
  then have "size (mset (map item_id ?out)) = size (mset (map item_id ?ps))" by simp
  then have l: "length ?out = length ?ps" by simp
  have "map item_order ?out = map int [0 ..< length ?out]"
    unfolding o using ords by (rule addRemaining_orders)
  then have os: "map item_order ?out = map int [0 ..< length ?ps]"
    by (simp only: l)
  have fo: "list_all (fromSequence ?ps) ?out"
    using fr by (rule addRemaining_from) simp
  show ?thesis
    unfolding out using r ms os fo by simp
qed


theorem reorderPathSequence_permutes_witness:
  "distinct (map item_id (pathSequence cycleWithGhost))
   \<and> targetsSequenced (pathSequence cycleWithGhost) (corridors cycleWithGhost)
   \<and> map cor_id (corridors cycleWithGhost) = [''C1'', ''C2'']
   \<and> hasReturned (reorderPathSequence 6 cycleWithGhost)
   \<and> mset (map item_id (pathSequence (storeAfter (reorderPathSequence 6 cycleWithGhost))))
       = mset [''E1'', ''C1'', ''N2'', ''C2'', ''C3'']
   \<and> map item_order (pathSequence (storeAfter (reorderPathSequence 6 cycleWithGhost)))
       = [0, 1, 2, 3, 4]"
proof -
  have ids: "map item_id (pathSequence cycleWithGhost) = [''E1'', ''C1'', ''N2'', ''C2'', ''C3'']"
    by code_simp
  have d: "distinct (map item_id (pathSequence cycleWithGhost))"
    by (simp add: ids)
  have h: "targetsSequenced (pathSequence cycleWithGhost) (corridors cycleWithGhost)"
    by code_simp
  have c: "map cor_id (corridors cycleWithGhost) = [''C1'', ''C2'']"
    by code_simp
  have l: "length (pathSequence cycleWithGhost) = 5"
    by code_simp
  have n: "length (pathSequence cycleWithGhost) < 6"
    by (simp add: l)
  have u: "map int [0 ..< 5] = [0, 1, 2, 3, 4]"
    by (simp add: upt_rec)
  from reorderPathSequence_permutes [OF d h n] d h c show ?thesis
    by (simp add: ids l u)
qed

text \<open>
  Why the targets must be items of the sequence: \<open>processPath\<close> marks a node as
  processed only when it finds the node's id in the sequence. In the store below the
  corridor C2 leads from X to X and X is no item of the sequence, so the walk that
  reaches X calls itself for X again and again; whatever the depth of the call stack,
  the sequencer ends with a \<open>RangeError\<close> and writes nothing.
\<close>

lemma selfLoop_sequence: "map item_id (pathSequence selfLoop) = [''S'', ''C1'', ''C2'']"
  by code_simp

lemma selfLoop_corridors:
  "map (\<lambda>c. (cor_id c, cor_from c, cor_to c)) (corridors selfLoop)
     = [(''C1'', Some ''S'', Some ''X''), (''C2'', Some ''X'', Some ''X'')]"
  by code_simp

lemma selfLoop_starts: "map node_id (startNodes selfLoop) = [''S'']"
  by code_simp

lemma addItemToSequence_absent:
  "x \<notin> set (map item_id ps) \<Longrightarrow> addItemToSequence ps x ord w = (ord, w)"
proof -
  assume "x \<notin> set (map item_id ps)"
  then have "find (\<lambda>p. item_id p = x) ps = None"
    by (auto simp: find_None_iff)
  then show ?thesis by (simp add: addItemToSequence_def)
qed

lemma addItemToSequence_other:
  "addItemToSequence ps y ord w = (ord', w') \<Longrightarrow> x \<noteq> y \<Longrightarrow> x \<notin> processedItems w \<Longrightarrow>
   x \<notin> processedItems w'"
  by (auto simp: addItemToSequence_def split: if_splits option.splits)

lemma processPath_self_loop:
  assumes out: "filter (\<lambda>c. cor_from c = Some x) cs = [c]"
    and to: "cor_to c = Some x" and ne: "x \<noteq> []" and ci: "cor_id c \<noteq> x"
    and absent: "x \<notin> set (map item_id ps)"
  shows "x \<notin> processedItems w \<Longrightarrow> processPath d ps cs x ord w = None"
proof (induction d arbitrary: ord w)
  case 0
  show ?case by simp
next
  case (Suc d)
  obtain ord1 w1 where a: "addItemToSequence ps (cor_id c) ord w = (ord1, w1)"
    by (cases "addItemToSequence ps (cor_id c) ord w")
  have n1: "x \<notin> processedItems w1"
    using addItemToSequence_other [OF a _ Suc.prems] ci by blast
  have "processPath d ps cs x ord1 w1 = None"
    using n1 by (rule Suc.IH)
  then have "processOutgoing d ps cs [c] ord w = None"
    using a to ne n1 by simp
  then show ?case
    by (simp add: addItemToSequence_absent [OF absent] out)
qed

lemma reorderPathSequence_selfLoop_never_returns:
  "reorderPathSequence depth selfLoop = Threw RangeError selfLoop"
proof -
  let ?ps = "pathSequence selfLoop" and ?cs = "corridors selfLoop"
  obtain c1 c2 where cs: "?cs = [c1, c2]"
    and c1: "cor_id c1 = ''C1''" "cor_from c1 = Some ''S''" "cor_to c1 = Some ''X''"
    and c2: "cor_id c2 = ''C2''" "cor_from c2 = Some ''X''" "cor_to c2 = Some ''X''"
    using selfLoop_corridors by auto
  obtain s where st: "startNodes selfLoop = [s]" and s: "node_id s = ''S''"
    using selfLoop_starts by auto
  have absent: "''X'' \<notin> set (map item_id ?ps)"
    by (simp only: selfLoop_sequence) simp
  have outX: "filter (\<lambda>c. cor_from c = Some ''X'') ?cs = [c2]"
    by (simp add: cs c1 c2)
  have outS: "filter (\<lambda>c. cor_from c = Some ''S'') ?cs = [c1]"
    by (simp add: cs c1 c2)
  have loop: "\<And>d ord (w :: walk).
      ''X'' \<notin> processedItems w \<Longrightarrow> processPath d ?ps ?cs ''X'' ord w = None"
  proof -
    fix d ord and w :: walk assume "''X'' \<notin> processedItems w"
    with processPath_self_loop [OF outX c2(3) _ _ absent, of w d ord]
    show "processPath d ?ps ?cs ''X'' ord w = None" by (simp add: c2)
  qed
  have "processPath depth ?ps ?cs ''S'' 0 emptyWalk = None"
  proof (cases depth)
    case 0
    then show ?thesis by simp
  next
    case (Suc d)
    obtain o1 w1 where a1: "addItemToSequence ?ps ''S'' 0 emptyWalk = (o1, w1)"
      by (cases "addItemToSequence ?ps ''S'' 0 emptyWalk")
    have x1: "''X'' \<notin> processedItems w1"
      using addItemToSequence_other [OF a1] by (simp add: emptyWalk_def)
    obtain o2 w2 where a2: "addItemToSequence ?ps ''C1'' o1 w1 = (o2, w2)"
      by (cases "addItemToSequence ?ps ''C1'' o1 w1")
    have x2: "''X'' \<notin> processedItems w2"
      using addItemToSequence_other [OF a2 _ x1] by simp
    have "processOutgoing d ?ps ?cs [c1] o1 w1 = None"
      using a2 x2 loop [OF x2] by (simp add: c1)
    then show ?thesis
      by (simp add: Suc a1 outS)
  qed
  then have "processStartNodes depth ?ps ?cs (startNodes selfLoop) 0 emptyWalk = None"
    by (simp add: st s emptyWalk_def)
  then show ?thesis
    by (simp add: reorderPathSequence_def)
qed

section \<open>The linear path\<close>

lemma find_by_id:
  "x \<in> set (map item_id ps) \<Longrightarrow> \<exists>p. find (\<lambda>p. item_id p = x) ps = Some p \<and> item_id p = x"
  by (induction ps) auto

lemma addItemToSequence_new:
  "find (\<lambda>p. item_id p = x) ps = Some p \<Longrightarrow> x \<notin> processedItems w \<Longrightarrow>
   addItemToSequence ps x ord w
     = (ord + 1, \<lparr> processedItems = insert x (processedItems w),
                    reorderedSequence = reorderedSequence w @ [p\<lparr> item_order := ord \<rparr>] \<rparr>)"
  by (simp add: addItemToSequence_def)

lemma addRemaining_all_processed:
  "set (map item_id items) \<subseteq> S \<Longrightarrow> addRemaining S items ord acc = acc"
  by (induction items arbitrary: ord acc) auto

lemma two_corridors:
  assumes "mset (map f cs) = mset [a, b]"
  shows "\<exists>c1 c2. f c1 = a \<and> f c2 = b \<and> (cs = [c1, c2] \<or> cs = [c2, c1])"
proof -
  have "length (map f cs) = 2"
    using assms by (metis length_Cons list.size(3) mset_eq_length numeral_2_eq_2)
  then obtain x y where cs: "cs = [x, y]"
    by (cases cs; cases "tl cs") auto
  with assms have "{#f x, f y#} = {#a, b#}" by simp
  then have "(f x = a \<and> f y = b) \<or> (f x = b \<and> f y = a)"
    by (auto simp: add_eq_conv_ex)
  with cs show ?thesis by blast
qed

lemma single_start:
  assumes "mset (map node_id ns) = mset [''E1'', ''DP1'', ''AD1'']"
  shows "map node_id (filter (\<lambda>n. node_id n = ''E1'') ns) = [''E1'']"
proof -
  have "map node_id (filter (\<lambda>n. node_id n = ''E1'') ns)
          = filter (\<lambda>x. x = ''E1'') (map node_id ns)"
    by (simp add: filter_map comp_def)
  moreover have "mset (filter (\<lambda>x. x = ''E1'') (map node_id ns)) = {#''E1''#}"
    unfolding mset_filter assms by simp
  ultimately show ?thesis
    by (metis mset_single_iff_right mset.simps(1,2))
qed


lemma edgesBetween_ends:
  "map (\<lambda>e. (edge_from e, edge_to e)) (edgesBetween old [a, b, c, d, e])
     = [(item_id a, item_id b), (item_id b, item_id c), (item_id c, item_id d),
        (item_id d, item_id e)]"
  by (simp add: newEdge_def Let_def)

text \<open>
  C5. The store holds the three nodes E1, DP1 and AD1, of which E1 alone is an
  entrance, and two corridors, one from E1 to DP1 and one from DP1 to AD1, whose ids
  \<open>k1\<close> and \<open>k2\<close> differ from each other and from the ids of the nodes; the path
  sequence holds one item for each of the five, in any order, as do the collections.
  With room for three nested calls the sequencer returns the sequence E1, \<open>k1\<close>, DP1,
  \<open>k2\<close>, AD1 with the orders 0 to 4, and four edges, one between each two neighbours.
\<close>

theorem linear_path_sequence:
  fixes st :: "('np, 'cp) store"
  assumes ns: "mset (map node_id (nodes st)) = mset [''E1'', ''DP1'', ''AD1'']"
    and ent: "list_all (\<lambda>n. typeIncludesEntrance (node_type n) = (node_id n = ''E1''))
                (nodes st)"
    and cors: "mset (map (\<lambda>c. (cor_id c, cor_from c, cor_to c)) (corridors st))
                 = mset [(k1, Some ''E1'', Some ''DP1''), (k2, Some ''DP1'', Some ''AD1'')]"
    and dist: "distinct [''E1'', ''DP1'', ''AD1'', k1, k2]"
    and seq: "mset (map item_id (pathSequence st)) = mset [''E1'', ''DP1'', ''AD1'', k1, k2]"
    and depth: "3 \<le> depth"
  shows "hasReturned (reorderPathSequence depth st)
    \<and> map item_id (pathSequence (storeAfter (reorderPathSequence depth st)))
        = [''E1'', k1, ''DP1'', k2, ''AD1'']
    \<and> map item_order (pathSequence (storeAfter (reorderPathSequence depth st)))
        = [0, 1, 2, 3, 4]
    \<and> length (edges (storeAfter (reorderPathSequence depth st))) = 4
    \<and> map (\<lambda>e. (edge_from e, edge_to e)) (edges (storeAfter (reorderPathSequence depth st)))
        = [(''E1'', k1), (k1, ''DP1''), (''DP1'', k2), (k2, ''AD1'')]"
proof -
  let ?ps = "pathSequence st" and ?cs = "corridors st"
  from two_corridors [OF cors] obtain c1 c2
    where c1: "cor_id c1 = k1" "cor_from c1 = Some ''E1''" "cor_to c1 = Some ''DP1''"
      and c2: "cor_id c2 = k2" "cor_from c2 = Some ''DP1''" "cor_to c2 = Some ''AD1''"
      and cs: "?cs = [c1, c2] \<or> ?cs = [c2, c1]"
    by auto
  have outE: "filter (\<lambda>c. cor_from c = Some ''E1'') ?cs = [c1]"
    using cs c1 c2 by auto
  have outD: "filter (\<lambda>c. cor_from c = Some ''DP1'') ?cs = [c2]"
    using cs c1 c2 by auto
  have outA: "filter (\<lambda>c. cor_from c = Some ''AD1'') ?cs = []"
    using cs c1 c2 by auto
  have inc: "list_ex (\<lambda>c. cor_to c = Some n) ?cs \<longleftrightarrow> n = ''DP1'' \<or> n = ''AD1''" for n
    using cs c1 c2 by auto
  have nodeIds: "set (map node_id (nodes st)) = {''E1'', ''DP1'', ''AD1''}"
    using mset_eq_setD [OF ns] by simp
  have "startNodes st = filter (\<lambda>n. node_id n = ''E1'') (nodes st)"
    unfolding startNodes_def Let_def
  proof (rule filter_cong [OF refl])
    fix n assume n: "n \<in> set (nodes st)"
    then have t: "typeIncludesEntrance (node_type n) = (node_id n = ''E1'')"
      using ent by (simp add: list_all_iff)
    from n nodeIds have "node_id n \<in> {''E1'', ''DP1'', ''AD1''}" by auto
    then show "(typeIncludesEntrance (node_type n)
                 \<or> \<not> list_ex (\<lambda>corridor. cor_to corridor = Some (node_id n)) ?cs)
               = (node_id n = ''E1'')"
      unfolding t inc by auto
  qed
  with single_start [OF ns] obtain e where starts: "startNodes st = [e]" and e: "node_id e = ''E1''"
    by (cases "startNodes st") auto
  have ids: "set (map item_id ?ps) = {''E1'', ''DP1'', ''AD1'', k1, k2}"
    using mset_eq_setD [OF seq] by simp
  obtain iE where fE: "find (\<lambda>p. item_id p = ''E1'') ?ps = Some iE" and iE: "item_id iE = ''E1''"
    using find_by_id [of "''E1''" ?ps] ids by auto
  obtain iD where fD: "find (\<lambda>p. item_id p = ''DP1'') ?ps = Some iD" and iD: "item_id iD = ''DP1''"
    using find_by_id [of "''DP1''" ?ps] ids by auto
  obtain iA where fA: "find (\<lambda>p. item_id p = ''AD1'') ?ps = Some iA" and iA: "item_id iA = ''AD1''"
    using find_by_id [of "''AD1''" ?ps] ids by auto
  obtain i1 where f1: "find (\<lambda>p. item_id p = k1) ?ps = Some i1" and i1: "item_id i1 = k1"
    using find_by_id [of k1 ?ps] ids by auto
  obtain i2 where f2: "find (\<lambda>p. item_id p = k2) ?ps = Some i2" and i2: "item_id i2 = k2"
    using find_by_id [of k2 ?ps] ids by auto
  from depth obtain d where d: "depth = Suc (Suc (Suc d))"
    by (auto simp: numeral_3_eq_3 Suc_le_eq dest!: less_imp_Suc_add)
  from dist have neq: "''DP1'' \<noteq> k1" "''AD1'' \<noteq> k1" "''AD1'' \<noteq> k2"
    "k1 \<noteq> ''E1''" "k2 \<noteq> ''E1''" "k2 \<noteq> ''DP1''" "k2 \<noteq> k1"
    by auto
  let ?w1 = "\<lparr> processedItems = {''E1''},
               reorderedSequence = [iE\<lparr> item_order := 0 \<rparr>] \<rparr>"
  let ?w2 = "\<lparr> processedItems = {k1, ''E1''},
               reorderedSequence = [iE\<lparr> item_order := 0 \<rparr>, i1\<lparr> item_order := 1 \<rparr>] \<rparr>"
  let ?w3 = "\<lparr> processedItems = {''DP1'', k1, ''E1''},
               reorderedSequence = [iE\<lparr> item_order := 0 \<rparr>, i1\<lparr> item_order := 1 \<rparr>,
                 iD\<lparr> item_order := 2 \<rparr>] \<rparr>"
  let ?w4 = "\<lparr> processedItems = {k2, ''DP1'', k1, ''E1''},
               reorderedSequence = [iE\<lparr> item_order := 0 \<rparr>, i1\<lparr> item_order := 1 \<rparr>,
                 iD\<lparr> item_order := 2 \<rparr>, i2\<lparr> item_order := 3 \<rparr>] \<rparr>"
  let ?out = "[iE\<lparr> item_order := 0 \<rparr>, i1\<lparr> item_order := 1 \<rparr>, iD\<lparr> item_order := 2 \<rparr>,
               i2\<lparr> item_order := 3 \<rparr>, iA\<lparr> item_order := 4 \<rparr>]"
  let ?w = "\<lparr> processedItems = {''AD1'', k2, ''DP1'', k1, ''E1''}, reorderedSequence = ?out \<rparr>"
  have a1: "addItemToSequence ?ps ''E1'' 0 emptyWalk = (1, ?w1)"
    using addItemToSequence_new [OF fE, of emptyWalk 0] by (simp add: emptyWalk_def)
  have a2: "addItemToSequence ?ps k1 1 ?w1 = (2, ?w2)"
    using addItemToSequence_new [OF f1, of ?w1 1] neq by simp
  have a3: "addItemToSequence ?ps ''DP1'' 2 ?w2 = (3, ?w3)"
    using addItemToSequence_new [OF fD, of ?w2 2] neq by simp
  have a4: "addItemToSequence ?ps k2 3 ?w3 = (4, ?w4)"
    using addItemToSequence_new [OF f2, of ?w3 3] neq by simp
  have a5: "addItemToSequence ?ps ''AD1'' 4 ?w4 = (5, ?w)"
    using addItemToSequence_new [OF fA, of ?w4 4] neq by simp
  have p3: "processPath (Suc d) ?ps ?cs ''AD1'' 4 ?w4 = Some (5, ?w)"
    by (simp add: a5 outA del: processOutgoing.simps(2))
  have o2: "processOutgoing (Suc d) ?ps ?cs [c2] 3 ?w3 = Some (5, ?w)"
    using neq by (simp add: a4 c2 p3 del: processPath.simps)
  have p2: "processPath (Suc (Suc d)) ?ps ?cs ''DP1'' 2 ?w2 = Some (5, ?w)"
    by (simp add: a3 outD o2 del: processOutgoing.simps(2))
  have o1: "processOutgoing (Suc (Suc d)) ?ps ?cs [c1] 1 ?w1 = Some (5, ?w)"
    using neq by (simp add: a2 c1 p2 del: processPath.simps)
  have walk1: "processPath depth ?ps ?cs ''E1'' 0 emptyWalk = Some (5, ?w)"
    by (simp add: d a1 outE o1 del: processOutgoing.simps(2))
  have startsDone: "processStartNodes depth ?ps ?cs (startNodes st) 0 emptyWalk = Some (5, ?w)"
    using walk1 by (simp add: starts e emptyWalk_def)
  have rest: "addRemaining (processedItems ?w) ?ps 5 ?out = ?out"
    by (rule addRemaining_all_processed) (use ids in auto)
  have r: "reorderPathSequence depth st
             = Returned (regenerateEdges (st\<lparr> pathSequence := ?out \<rparr>))"
    using startsDone rest by (simp add: reorderPathSequence_def)
  have sorted: "sort_key item_order ?out = ?out"
    by simp
  have a: "hasReturned (reorderPathSequence depth st)"
    by (simp add: r)
  have b: "pathSequence (storeAfter (reorderPathSequence depth st)) = ?out"
    by (simp add: r regenerateEdges_def)
  have c: "edges (storeAfter (reorderPathSequence depth st)) = edgesBetween (edges st) ?out"
    by (simp only: r storeAfter.simps regenerateEdges_def sorted) simp
  have ce: "map (\<lambda>e. (edge_from e, edge_to e)) (edgesBetween (edges st) ?out)
        = [(''E1'', k1), (k1, ''DP1''), (''DP1'', k2), (k2, ''AD1'')]"
    by (simp only: edgesBetween_ends) (simp add: iE iD iA i1 i2)
  have cl: "length (edgesBetween (edges st) ?out) = 4"
    by simp
  show ?thesis
    unfolding b c using a ce cl by (simp add: iE iD iA i1 i2)
qed

text \<open>
  The scenario built by the store's operations: adding the second corridor moves AD1
  behind it.
\<close>

theorem linear_path_sequence_witness:
  "map item_id (pathSequence linearPathInput) = [''E1'', ''CS1'', ''DP1'', ''AD1'', ''CS2'']
   \<and> hasReturned (reorderPathSequence 3 linearPathInput)
   \<and> map item_id (pathSequence (storeAfter (reorderPathSequence 3 linearPathInput)))
       = [''E1'', ''CS1'', ''DP1'', ''CS2'', ''AD1'']
   \<and> map item_order (pathSequence (storeAfter (reorderPathSequence 3 linearPathInput)))
       = [0, 1, 2, 3, 4]
   \<and> length (edges (storeAfter (reorderPathSequence 3 linearPathInput))) = 4
   \<and> map (\<lambda>e. (edge_from e, edge_to e)) (edges (storeAfter (reorderPathSequence 3 linearPathInput)))
       = [(''E1'', ''CS1''), (''CS1'', ''DP1''), (''DP1'', ''CS2''), (''CS2'', ''AD1'')]"
proof -
  have n: "map node_id (nodes linearPathInput) = [''E1'', ''DP1'', ''AD1'']"
    by code_simp
  have t: "list_all (\<lambda>n. typeIncludesEntrance (node_type n) = (node_id n = ''E1''))
             (nodes linearPathInput)"
    by code_simp
  have c: "map (\<lambda>c. (cor_id c, cor_from c, cor_to c)) (corridors linearPathInput)
             = [(''CS1'', Some ''E1'', Some ''DP1''), (''CS2'', Some ''DP1'', Some ''AD1'')]"
    by code_simp
  have s: "map item_id (pathSequence linearPathInput) = [''E1'', ''CS1'', ''DP1'', ''AD1'', ''CS2'']"
    by code_simp
  have n': "mset (map node_id (nodes linearPathInput)) = mset [''E1'', ''DP1'', ''AD1'']"
    by (simp add: n)
  have c': "mset (map (\<lambda>c. (cor_id c, cor_from c, cor_to c)) (corridors linearPathInput))
             = mset [(''CS1'', Some ''E1'', Some ''DP1''), (''CS2'', Some ''DP1'', Some ''AD1'')]"
    by (simp add: c)
  have s': "mset (map item_id (pathSequence linearPathInput))
             = mset [''E1'', ''DP1'', ''AD1'', ''CS1'', ''CS2'']"
    by (simp add: s)
  have d: "distinct [''E1'', ''DP1'', ''AD1'', ''CS1'', ''CS2'']"
    by simp
  have l: "(3::nat) \<le> 3"
    by simp
  from linear_path_sequence [OF n' t c' d s' l] s show ?thesis
    by simp
qed

end
